theory Spec2Isabelle
  imports Complex_Main
begin

section \<open>Python values the three scripts rely on\<close>

text \<open>
  The repository holds three independent command-line scripts. Each one is a straight
  line of library calls, so each is modelled as a function from the world it runs in
  (standard output, files, database) to an outcome: either the script ran to its last
  line, or an exception left it at some line. Exceptions are never caught in the
  source, so the first one ends the run; the world reached so far is kept in the
  outcome, because the effects made before the exception are not undone. The libraries
  that the scripts import are taken to be installed.
\<close>

datatype py_error =
    IndexError
  | ValueError
  | UnicodeEncodeError
  | OSError
  | FileNotFoundError
  | ParserError
  | OperationalError
  | ProgrammingError

subsection \<open>Text\<close>

text \<open>
  A Python \<^verbatim>\<open>str\<close> is a sequence of Unicode code points. The command-line arguments
  and the texts handed to \<^verbatim>\<open>print\<close> are such sequences, here lists of code points;
  \<open>lit\<close> gives the one of an ASCII literal of the source. Paths, table names and the
  texts stored in the database are only compared as wholes and stay strings.
\<close>

type_synonym py_str = "nat list"

definition lit :: "string \<Rightarrow> py_str" where
  "lit s = map of_char s"

text \<open>U+2713, the check mark that opens five messages of the ingestion script.\<close>

definition check_mark :: nat where
  "check_mark = 0x2713"

subsection \<open>\<^verbatim>\<open>int(str)\<close> and \<^verbatim>\<open>str(int)\<close>\<close>

text \<open>
  \<^verbatim>\<open>int(s)\<close> in base ten, the way CPython 3.11 computes it for a \<^verbatim>\<open>str\<close>, in two steps.

  A text that is not all ASCII is first rewritten
  (\<^verbatim>\<open>_PyUnicode_TransformDecimalAndSpaceToASCII\<close>): a code point below 127 is kept, a
  white-space character becomes a space, a decimal digit of any script becomes the
  ASCII digit of its value, and at any other character the text ends with a question
  mark in its place. An all-ASCII text is taken as it is.

  The result is then read (\<^verbatim>\<open>PyLong_FromString\<close>): ASCII white space at both ends is
  skipped, one sign is allowed, then come decimal digits in which single underscores may
  separate digits. More than 4300 digits are refused (the default of
  \<^verbatim>\<open>sys.int_max_str_digits\<close>). Every refusal is a \<^verbatim>\<open>ValueError\<close>.

  So the separators U+001C to U+001F, which \<^verbatim>\<open>str.strip\<close> removes, are no white space for
  \<^verbatim>\<open>int\<close>, while the no-break space and the digits of other scripts are accepted. The
  digits are those of Unicode 14.0, the version CPython 3.11 carries: 66 runs of ten,
  listed by their zeros.
\<close>

definition py_isspace :: "nat \<Rightarrow> bool" where
  "py_isspace c \<longleftrightarrow> List.member [0x09, 0x0A, 0x0B, 0x0C, 0x0D, 0x20] c"

definition py_unicode_isspace :: "nat \<Rightarrow> bool" where
  "py_unicode_isspace c \<longleftrightarrow>
     List.member
       [0x85, 0xA0, 0x1680,
        0x2000, 0x2001, 0x2002, 0x2003, 0x2004, 0x2005, 0x2006, 0x2007, 0x2008, 0x2009, 0x200A,
        0x2028, 0x2029, 0x202F, 0x205F, 0x3000] c"

definition decimal_zeros :: "nat list" where
  "decimal_zeros =
     [0x0030, 0x0660, 0x06F0, 0x07C0, 0x0966, 0x09E6, 0x0A66, 0x0AE6, 0x0B66, 0x0BE6, 0x0C66,
      0x0CE6, 0x0D66, 0x0DE6, 0x0E50, 0x0ED0, 0x0F20, 0x1040, 0x1090, 0x17E0, 0x1810, 0x1946,
      0x19D0, 0x1A80, 0x1A90, 0x1B50, 0x1BB0, 0x1C40, 0x1C50, 0xA620, 0xA8D0, 0xA900, 0xA9D0,
      0xA9F0, 0xAA50, 0xABF0, 0xFF10, 0x104A0, 0x10D30, 0x11066, 0x110F0, 0x11136, 0x111D0,
      0x112F0, 0x11450, 0x114D0, 0x11650, 0x116C0, 0x11730, 0x118E0, 0x11950, 0x11C50, 0x11D50,
      0x11DA0, 0x16A60, 0x16AC0, 0x16B50, 0x1D7CE, 0x1D7D8, 0x1D7E2, 0x1D7EC, 0x1D7F6, 0x1E140,
      0x1E2F0, 0x1E950, 0x1FBF0]"

definition py_unicode_todecimal :: "nat \<Rightarrow> nat option" where
  "py_unicode_todecimal c =
     map_option (\<lambda>z. c - z) (find (\<lambda>z. z \<le> c \<and> c < z + 10) decimal_zeros)"

fun to_ascii :: "py_str \<Rightarrow> py_str" where
  "to_ascii [] = []"
| "to_ascii (c # cs) =
     (if c < 127 then c # to_ascii cs
      else if py_unicode_isspace c then 0x20 # to_ascii cs
      else (case py_unicode_todecimal c of
              None \<Rightarrow> [0x3F]
            | Some d \<Rightarrow> (0x30 + d) # to_ascii cs))"

definition transform_decimal_and_space_to_ascii :: "py_str \<Rightarrow> py_str" where
  "transform_decimal_and_space_to_ascii s = (if list_all (\<lambda>c. c < 128) s then s else to_ascii s)"

definition strip :: "py_str \<Rightarrow> py_str" where
  "strip s = rev (dropWhile py_isspace (rev (dropWhile py_isspace s)))"

definition isdigit :: "nat \<Rightarrow> bool" where
  "isdigit c \<longleftrightarrow> 0x30 \<le> c \<and> c \<le> 0x39"

definition digit_val :: "nat \<Rightarrow> nat" where
  "digit_val c = c - 0x30"

text \<open>The digits after the first one: \<open>acc\<close> is the value read so far; 0x5F is the underscore.\<close>

fun int_digits :: "nat \<Rightarrow> py_str \<Rightarrow> nat option" where
  "int_digits acc [] = Some acc"
| "int_digits acc (c # cs) =
     (if c = 0x5F then
        (case cs of
           [] \<Rightarrow> None
         | d # ds \<Rightarrow> if isdigit d then int_digits (10 * acc + digit_val d) ds else None)
      else if isdigit c then int_digits (10 * acc + digit_val c) cs
      else None)"

definition int_max_str_digits :: nat where
  "int_max_str_digits = 4300"

text \<open>0x2D is the minus sign, 0x2B the plus sign.\<close>

definition py_int :: "py_str \<Rightarrow> py_error + int" where
  "py_int s =
     (let t = strip (transform_decimal_and_space_to_ascii s);
          neg = (case t of [] \<Rightarrow> False | c # _ \<Rightarrow> c = 0x2D);
          body = (case t of [] \<Rightarrow> [] | c # r \<Rightarrow> if c = 0x2D \<or> c = 0x2B then r else t)
      in case body of
           [] \<Rightarrow> Inl ValueError
         | d # ds \<Rightarrow>
             if \<not> isdigit d then Inl ValueError
             else (case int_digits (digit_val d) ds of
                     None \<Rightarrow> Inl ValueError
                   | Some n \<Rightarrow>
                       if int_max_str_digits < length (filter isdigit body) then Inl ValueError
                       else Inr (if neg then - int n else int n)))"

text \<open>\<^verbatim>\<open>str(n)\<close>, as the f-strings format the month: decimal, a minus sign when negative.\<close>

fun str_nat :: "nat \<Rightarrow> string" where
  "str_nat n =
     (if n < 10 then [char_of (48 + n)]
      else str_nat (n div 10) @ [char_of (48 + n mod 10)])"

declare str_nat.simps [simp del]

definition str_int :: "int \<Rightarrow> string" where
  "str_int i = (if i < 0 then CHR ''-'' # str_nat (nat (- i)) else str_nat (nat i))"

section \<open>The pipeline runner (\<^verbatim>\<open>docker-sql/pipeline/pipeline.py\<close>)\<close>

text \<open>
  The table of the script has two columns and the default index 0, 1, ...; a row of the
  model carries its index label, which the filter keeps.
\<close>

record month_row =
  index :: nat
  month :: int
  num_passengers :: int

type_synonym frame = "month_row list"

text \<open>\<^verbatim>\<open>pd.DataFrame({'month': ms, 'num_passengers': ps})\<close> for two columns of one length.\<close>

definition DataFrame :: "int list \<Rightarrow> int list \<Rightarrow> frame" where
  "DataFrame ms ps =
     map (\<lambda>(i, m, p). \<lparr>index = i, month = m, num_passengers = p\<rparr>)
       (zip [0..<length ms] (zip ms ps))"

definition df :: frame where
  "df = DataFrame [1, 2, 3, 4, 5, 6, 7, 8, 9, 10, 11, 12]
                  [10, 20, 30, 40, 50, 60, 70, 80, 90, 100, 110, 120]"

definition head :: "frame \<Rightarrow> frame" where
  "head d = take 5 d"

text \<open>
  What a \<^verbatim>\<open>print\<close> call receives: text, the argument list, or a table. One call is one
  entry of the standard output.
\<close>

datatype printed = PStr py_str | PList "py_str list" | PFrame frame

text \<open>
  The world of the pipeline runner: the standard output, the files on disk (by path,
  with the table a parquet file holds), and which paths can be created or overwritten
  (the parent directory exists and is writable). The output path is relative, so
  \<open>writable\<close> depends on the directory the script is started from.

  A \<^verbatim>\<open>print\<close> call can fail. The standard output has an encoding, and a text with a
  character that the encoding lacks raises \<^verbatim>\<open>UnicodeEncodeError\<close>: U+2713 or an Arabic
  digit in an ASCII or Latin-1 stream, a lone surrogate (which an undecodable byte of the
  command line becomes) in UTF-8. A stream that cannot be written (a full disk, a closed
  pipe) raises \<^verbatim>\<open>OSError\<close> when the write reaches it. The texts of a list and of a table
  are made by \<^verbatim>\<open>repr\<close> and by pandas and are not spelled out here, so the world says of
  each printed object whether printing it fails, and with which exception: \<open>print_error\<close>
  is \<open>None\<close> on the objects that the stream takes.
\<close>

record world =
  stdout :: "printed list list"
  print_error :: "printed \<Rightarrow> py_error option"
  files :: "string \<rightharpoonup> frame"
  writable :: "string \<Rightarrow> bool"

text \<open>
  How a run ends, for each of the three scripts: an uncaught exception, or the normal
  exit after the last line. Both carry the world as the run left it.
\<close>

datatype 'w outcome = Raised py_error 'w | Exit0 'w

fun final_world :: "'w outcome \<Rightarrow> 'w" where
  "final_world (Raised e w) = w"
| "final_world (Exit0 w) = w"

text \<open>Sequencing: the next line runs only if the previous one raised nothing.\<close>

fun and_then :: "'w outcome \<Rightarrow> ('w \<Rightarrow> 'w outcome) \<Rightarrow> 'w outcome" where
  "and_then (Raised e w) f = Raised e w"
| "and_then (Exit0 w) f = f w"

text \<open>
  \<^verbatim>\<open>print(*args)\<close> writes its arguments one after the other. At the first one that the
  stream does not take, its exception is raised; the arguments before that one have been
  written.
\<close>

definition py_print :: "printed list \<Rightarrow> world \<Rightarrow> world outcome" where
  "py_print args w =
     (case List.map_filter (print_error w) args of
        [] \<Rightarrow> Exit0 (w\<lparr>stdout := stdout w @ [args]\<rparr>)
      | e # _ \<Rightarrow>
          Raised e (w\<lparr>stdout := stdout w @ [takeWhile (\<lambda>x. print_error w x = None) args]\<rparr>))"

text \<open>\<^verbatim>\<open>df.to_parquet(path)\<close>: the whole table goes to the file, or nothing is written.\<close>

definition to_parquet :: "frame \<Rightarrow> string \<Rightarrow> world \<Rightarrow> world outcome" where
  "to_parquet d path w =
     (if writable w path then Exit0 (w\<lparr>files := (files w)(path \<mapsto> d)\<rparr>)
      else Raised OSError w)"

definition output_path :: "int \<Rightarrow> string" where
  "output_path m =
     ''01-docker-terraform/docker-sql/pipeline/output_'' @ str_int m @ ''.parquet''"

text \<open>\<^verbatim>\<open>df[df['month'] == month]\<close>\<close>

definition df_month :: "int \<Rightarrow> frame" where
  "df_month m = filter (\<lambda>r. month r = m) df"

text \<open>
  The script, line by line. \<open>argv\<close> is \<^verbatim>\<open>sys.argv\<close>; \<^verbatim>\<open>sys.argv[1]\<close> raises
  \<^verbatim>\<open>IndexError\<close> on a list shorter than two, while the arguments of the second \<^verbatim>\<open>print\<close>
  are computed, so that nothing of that call is printed.
\<close>

definition pipeline :: "py_str list \<Rightarrow> world \<Rightarrow> world outcome" where
  "pipeline argv w0 =
     and_then (py_print [PStr (lit ''arguments:''), PList argv] w0) (\<lambda>w1.
     if length argv < 2 then Raised IndexError w1
     else
       and_then (py_print [PStr (lit (CHR 0x0A # ''first argument:'')), PStr (argv ! 1)] w1) (\<lambda>w2.
       case py_int (argv ! 1) of
         Inl e \<Rightarrow> Raised e w2
       | Inr m \<Rightarrow>
           and_then (py_print [PStr (lit (CHR 0x0A # ''Running pipeline for month '' @ str_int m))] w2) (\<lambda>w3.
           and_then (py_print [PStr (lit (CHR 0x0A # ''Dataframe:''))] w3) (\<lambda>w4.
           and_then (py_print [PFrame (head df)] w4) (\<lambda>w5.
           and_then (py_print [PStr (lit (CHR 0x0A # ''Dataframe for month '' @ str_int m @ '':''))] w5) (\<lambda>w6.
           and_then (py_print [PFrame (df_month m)] w6) (\<lambda>w7.
           to_parquet df (output_path m) w7)))))))"

section \<open>The database both homework scripts talk to\<close>

subsection \<open>Values and rows\<close>

text \<open>
  A date is (year, month, day); a timestamp is a date with the microseconds since
  midnight. Both are compared lexicographically, which is the order of time on valid
  dates. A date literal compared with a timestamp column stands for midnight of that day.
\<close>

type_synonym date = "int \<times> int \<times> int"
type_synonym timestamp = "date \<times> nat"

fun date_less :: "date \<Rightarrow> date \<Rightarrow> bool" where
  "date_less (y, m, d) (y', m', d') \<longleftrightarrow>
     y < y' \<or> (y = y' \<and> (m < m' \<or> (m = m' \<and> d < d')))"

definition date_le :: "date \<Rightarrow> date \<Rightarrow> bool" where
  "date_le a b \<longleftrightarrow> a = b \<or> date_less a b"

fun ts_less :: "timestamp \<Rightarrow> timestamp \<Rightarrow> bool" where
  "ts_less (d, u) (d', u') \<longleftrightarrow> date_less d d' \<or> (d = d' \<and> u < u')"

definition ts_le :: "timestamp \<Rightarrow> timestamp \<Rightarrow> bool" where
  "ts_le a b \<longleftrightarrow> a = b \<or> ts_less a b"

definition midnight :: "date \<Rightarrow> timestamp" where
  "midnight d = (d, 0)"

text \<open>
  The columns the queries read; every column is nullable (\<open>None\<close> is SQL's NULL). The
  files carry more columns, which are loaded with the rest and which no query reads.
  The \<^verbatim>\<open>double precision\<close> columns are modelled by the real numbers they denote:
  the rounding of a floating-point sum is not modelled, and neither are the infinities
  and NaN (pandas writes a missing number as NULL).
\<close>

record trip =
  lpep_pickup_datetime :: "timestamp option"
  trip_distance :: "real option"
  PULocationID :: "int option"
  DOLocationID :: "int option"
  total_amount :: "real option"
  tip_amount :: "real option"

record zone =
  LocationID :: "int option"
  Zone :: "string option"

text \<open>
  A data frame, and a table of the database, is a list of rows of one of the two
  shapes. The database maps table names to tables.
\<close>

datatype dataset = Trips "trip list" | Zones "zone list"

type_synonym database = "string \<rightharpoonup> dataset"

fun len :: "dataset \<Rightarrow> nat" where
  "len (Trips rows) = length rows"
| "len (Zones rows) = length rows"

fun dataset_head :: "dataset \<Rightarrow> dataset" where
  "dataset_head (Trips rows) = Trips (take 5 rows)"
| "dataset_head (Zones rows) = Zones (take 5 rows)"

subsection \<open>The SQL operators the four statements use\<close>

text \<open>
  Conditions are three-valued: \<open>None\<close> is \<^emph>\<open>unknown\<close>, which a comparison with NULL
  yields. \<^verbatim>\<open>WHERE\<close> and \<^verbatim>\<open>JOIN ... ON\<close> keep a row only when the condition is true.
\<close>

type_synonym sqlbool = "bool option"

definition sql_cmp :: "('a \<Rightarrow> 'b \<Rightarrow> bool) \<Rightarrow> 'a option \<Rightarrow> 'b option \<Rightarrow> sqlbool" where
  "sql_cmp f a b =
     (case a of None \<Rightarrow> None | Some x \<Rightarrow> (case b of None \<Rightarrow> None | Some y \<Rightarrow> Some (f x y)))"

definition sql_and :: "sqlbool \<Rightarrow> sqlbool \<Rightarrow> sqlbool" where
  "sql_and a b =
     (if a = Some False \<or> b = Some False then Some False
      else if a = Some True \<and> b = Some True then Some True
      else None)"

definition sql_not :: "sqlbool \<Rightarrow> sqlbool" where
  "sql_not a = map_option Not a"

definition sql_where :: "('r \<Rightarrow> sqlbool) \<Rightarrow> 'r list \<Rightarrow> 'r list" where
  "sql_where cond rows = filter (\<lambda>r. cond r = Some True) rows"

definition inner_join :: "('a \<Rightarrow> 'b \<Rightarrow> sqlbool) \<Rightarrow> 'a list \<Rightarrow> 'b list \<Rightarrow> ('a \<times> 'b) list" where
  "inner_join on_cond ls rs =
     concat (map (\<lambda>l. map (Pair l) (filter (\<lambda>r. on_cond l r = Some True) rs)) ls)"

text \<open>\<^verbatim>\<open>DATE(ts)\<close>\<close>

definition sql_date :: "timestamp option \<Rightarrow> date option" where
  "sql_date ts = map_option fst ts"

text \<open>
  \<^verbatim>\<open>GROUP BY\<close>: one group per distinct key, NULL being a key like any other. SQL fixes no
  order of the groups; the model lists them in the order \<open>remdups\<close> leaves the keys.
\<close>

definition group_by :: "('r \<Rightarrow> 'k) \<Rightarrow> 'r list \<Rightarrow> ('k \<times> 'r list) list" where
  "group_by key rows =
     map (\<lambda>k. (k, filter (\<lambda>r. key r = k) rows)) (remdups (map key rows))"

text \<open>Aggregates skip NULLs; over no value at all, \<^verbatim>\<open>MAX\<close> and \<^verbatim>\<open>SUM\<close> are NULL.\<close>

definition non_null :: "'a option list \<Rightarrow> 'a list" where
  "non_null vs = List.map_filter id vs"

definition sql_max :: "('a::linorder) option list \<Rightarrow> 'a option" where
  "sql_max vs = (case non_null vs of [] \<Rightarrow> None | x # xs \<Rightarrow> Some (fold max xs x))"

definition sql_sum :: "real option list \<Rightarrow> real option" where
  "sql_sum vs = (case non_null vs of [] \<Rightarrow> None | x # xs \<Rightarrow> Some (fold (\<lambda>v acc. acc + v) xs x))"

definition count_star :: "'r list \<Rightarrow> int" where
  "count_star rows = int (length rows)"

text \<open>
  \<^verbatim>\<open>ORDER BY key DESC\<close>: PostgreSQL sorts NULL as larger than every value, so under
  \<^verbatim>\<open>DESC\<close> the NULLs come first. \<open>desc_before a b\<close> says that key \<open>a\<close> may stand before
  key \<open>b\<close>. The order among equal keys is not fixed by SQL; the model keeps the input
  order (an insertion sort).
\<close>

fun desc_before :: "('a::linorder) option \<Rightarrow> 'a option \<Rightarrow> bool" where
  "desc_before None b = True"
| "desc_before (Some x) None = False"
| "desc_before (Some x) (Some y) = (y \<le> x)"

fun insert_desc :: "('r \<Rightarrow> ('a::linorder) option) \<Rightarrow> 'r \<Rightarrow> 'r list \<Rightarrow> 'r list" where
  "insert_desc key r [] = [r]"
| "insert_desc key r (x # xs) =
     (if desc_before (key r) (key x) then r # x # xs else x # insert_desc key r xs)"

definition order_by_desc :: "('r \<Rightarrow> ('a::linorder) option) \<Rightarrow> 'r list \<Rightarrow> 'r list" where
  "order_by_desc key rows = foldr (insert_desc key) rows []"

definition limit :: "nat \<Rightarrow> 'r list \<Rightarrow> 'r list" where
  "limit n rows = take n rows"

subsection \<open>The four statements of \<^verbatim>\<open>homework_queries.py\<close>\<close>

text \<open>
  \<^verbatim>\<open>SELECT COUNT(*) as trip_count FROM green_taxi_data
  WHERE lpep_pickup_datetime >= '2025-11-01' AND lpep_pickup_datetime < '2025-12-01'
    AND trip_distance <= 1;\<close>
\<close>

definition q3_where :: "trip \<Rightarrow> sqlbool" where
  "q3_where g =
     sql_and
       (sql_and
          (sql_cmp (\<lambda>a b. ts_le b a) (lpep_pickup_datetime g) (Some (midnight (2025, 11, 1))))
          (sql_cmp ts_less (lpep_pickup_datetime g) (Some (midnight (2025, 12, 1)))))
       (sql_cmp (\<le>) (trip_distance g) (Some 1))"

definition q3 :: "trip list \<Rightarrow> int list" where
  "q3 green_taxi_data = [count_star (sql_where q3_where green_taxi_data)]"

text \<open>
  \<^verbatim>\<open>SELECT DATE(lpep_pickup_datetime) as pickup_date, MAX(trip_distance) as max_distance
  FROM green_taxi_data WHERE trip_distance < 100
  GROUP BY DATE(lpep_pickup_datetime) ORDER BY max_distance DESC LIMIT 1;\<close>
\<close>

definition q4_where :: "trip \<Rightarrow> sqlbool" where
  "q4_where g = sql_cmp (<) (trip_distance g) (Some 100)"

definition q4 :: "trip list \<Rightarrow> (date option \<times> real option) list" where
  "q4 green_taxi_data =
     limit 1
       (order_by_desc snd
          (map (\<lambda>(pickup_date, rows). (pickup_date, sql_max (map trip_distance rows)))
             (group_by (\<lambda>g. sql_date (lpep_pickup_datetime g))
                (sql_where q4_where green_taxi_data))))"

text \<open>
  \<^verbatim>\<open>SELECT z."Zone", SUM(g.total_amount) as total_sum
  FROM green_taxi_data g JOIN zones z ON g."PULocationID" = z."LocationID"
  WHERE DATE(g.lpep_pickup_datetime) = '2025-11-18'
  GROUP BY z."Zone" ORDER BY total_sum DESC LIMIT 5;\<close>
\<close>

definition q5_rows :: "trip list \<Rightarrow> zone list \<Rightarrow> (trip \<times> zone) list" where
  "q5_rows green_taxi_data zones =
     sql_where
       (\<lambda>(g, z). sql_cmp (=) (sql_date (lpep_pickup_datetime g)) (Some (2025, 11, 18)))
       (inner_join (\<lambda>g z. sql_cmp (=) (PULocationID g) (LocationID z))
          green_taxi_data zones)"

definition q5 :: "trip list \<Rightarrow> zone list \<Rightarrow> (string option \<times> real option) list" where
  "q5 green_taxi_data zones =
     limit 5
       (order_by_desc snd
          (map (\<lambda>(zone_name, rows). (zone_name, sql_sum (map (\<lambda>(g, z). total_amount g) rows)))
             (group_by (\<lambda>(g, z). Zone z) (q5_rows green_taxi_data zones))))"

text \<open>
  \<^verbatim>\<open>SELECT do_zone."Zone" as dropoff_zone, MAX(g.tip_amount) as max_tip
  FROM green_taxi_data g
  JOIN zones pu_zone ON g."PULocationID" = pu_zone."LocationID"
  JOIN zones do_zone ON g."DOLocationID" = do_zone."LocationID"
  WHERE pu_zone."Zone" = 'East Harlem North'
    AND DATE(g.lpep_pickup_datetime) >= '2025-11-01'
    AND DATE(g.lpep_pickup_datetime) < '2025-12-01'
  GROUP BY do_zone."Zone" ORDER BY max_tip DESC LIMIT 5;\<close>
\<close>

definition q6_where :: "(trip \<times> zone) \<times> zone \<Rightarrow> sqlbool" where
  "q6_where = (\<lambda>((g, pu_zone), do_zone).
     sql_and
       (sql_and
          (sql_cmp (=) (Zone pu_zone) (Some ''East Harlem North''))
          (sql_cmp (\<lambda>a b. date_le b a) (sql_date (lpep_pickup_datetime g)) (Some (2025, 11, 1))))
       (sql_cmp date_less (sql_date (lpep_pickup_datetime g)) (Some (2025, 12, 1))))"

definition q6_rows :: "trip list \<Rightarrow> zone list \<Rightarrow> ((trip \<times> zone) \<times> zone) list" where
  "q6_rows green_taxi_data zones =
     sql_where q6_where
       (inner_join (\<lambda>(g, pu_zone) do_zone. sql_cmp (=) (DOLocationID g) (LocationID do_zone))
          (inner_join (\<lambda>g pu_zone. sql_cmp (=) (PULocationID g) (LocationID pu_zone))
             green_taxi_data zones)
          zones)"

definition q6 :: "trip list \<Rightarrow> zone list \<Rightarrow> (string option \<times> real option) list" where
  "q6 green_taxi_data zones =
     limit 5
       (order_by_desc snd
          (map (\<lambda>(dropoff_zone, rows).
                  (dropoff_zone, sql_max (map (\<lambda>((g, pu_zone), do_zone). tip_amount g) rows)))
             (group_by (\<lambda>((g, pu_zone), do_zone). Zone do_zone)
                (q6_rows green_taxi_data zones))))"

text \<open>
  A statement sent to the server: it fails with \<^verbatim>\<open>OperationalError\<close> when the server
  cannot be reached, and with \<^verbatim>\<open>ProgrammingError\<close> when a table it names is missing
  or has not the columns it reads.
\<close>

datatype query = Q3 | Q4 | Q5 | Q6

datatype result =
    CountRows "int list"
  | DayRows "(date option \<times> real option) list"
  | ZoneRows "(string option \<times> real option) list"

record engine =
  reachable :: bool
  tables :: database

definition trips_of :: "database \<Rightarrow> py_error + trip list" where
  "trips_of db =
     (case db ''green_taxi_data'' of Some (Trips rows) \<Rightarrow> Inr rows | _ \<Rightarrow> Inl ProgrammingError)"

definition zones_of :: "database \<Rightarrow> py_error + zone list" where
  "zones_of db =
     (case db ''zones'' of Some (Zones rows) \<Rightarrow> Inr rows | _ \<Rightarrow> Inl ProgrammingError)"

definition read_sql :: "query \<Rightarrow> engine \<Rightarrow> py_error + result" where
  "read_sql query eng =
     (if \<not> reachable eng then Inl OperationalError
      else case trips_of (tables eng) of
        Inl e \<Rightarrow> Inl e
      | Inr g \<Rightarrow>
          (case query of
             Q3 \<Rightarrow> Inr (CountRows (q3 g))
           | Q4 \<Rightarrow> Inr (DayRows (q4 g))
           | Q5 \<Rightarrow> (case zones_of (tables eng) of Inl e \<Rightarrow> Inl e | Inr z \<Rightarrow> Inr (ZoneRows (q5 g z)))
           | Q6 \<Rightarrow> (case zones_of (tables eng) of Inl e \<Rightarrow> Inl e | Inr z \<Rightarrow> Inr (ZoneRows (q6 g z)))))"

section \<open>The world of the two homework scripts\<close>

text \<open>
  Both scripts build their engine from the same fixed address, so the database behind
  that address is part of the world they share, with the files of the working directory
  and the console. \<open>executed\<close> lists the statements \<^verbatim>\<open>pd.read_sql\<close> has run, oldest first.
\<close>

datatype disk_file = ParquetFile dataset | CsvFile dataset

text \<open>
  What a \<^verbatim>\<open>print\<close> call of these scripts shows. Every call has one argument:
  \<^item> \<open>HStr s\<close>: the fixed text \<open>s\<close>;
  \<^item> \<open>HRows a n b\<close>: the f-string \<^verbatim>\<open>f"{a}{n:,}{b}"\<close> with a row count \<open>n\<close>;
  \<^item> \<open>HTimed a n b c\<close>: the f-string \<^verbatim>\<open>f"{a}{n:,}{b}{seconds:.2f}{c}"\<close>, where the seconds
    are the difference of two wall-clock readings, which the model does not hold;
  \<^item> \<open>HFrame a d\<close>: the text \<open>a\<close> followed by the frame \<open>d\<close> (its first rows, or its columns
    only, for the prints of the column names and types);
  \<^item> \<open>HSql q\<close>: the text of a statement;
  \<^item> \<open>HResult r\<close>: the table a statement returned.
\<close>

datatype hw_printed =
    HStr py_str
  | HRows py_str nat py_str
  | HTimed py_str nat py_str py_str
  | HFrame py_str dataset
  | HSql query
  | HResult result

text \<open>
  As for the pipeline runner, \<open>console_error\<close> says of each printed object whether
  printing it fails, and with which exception.
\<close>

record hw_world =
  console :: "hw_printed list"
  console_error :: "hw_printed \<Rightarrow> py_error option"
  disk :: "string \<rightharpoonup> disk_file"
  db :: engine
  executed :: "query list"

definition hw_print :: "hw_printed \<Rightarrow> hw_world \<Rightarrow> hw_world outcome" where
  "hw_print x w =
     (case console_error w x of
        None \<Rightarrow> Exit0 (w\<lparr>console := console w @ [x]\<rparr>)
      | Some e \<Rightarrow> Raised e w)"

text \<open>Several \<^verbatim>\<open>print\<close> calls in a row.\<close>

fun hw_prints :: "hw_printed list \<Rightarrow> hw_world \<Rightarrow> hw_world outcome" where
  "hw_prints [] w = Exit0 w"
| "hw_prints (x # xs) w = and_then (hw_print x w) (hw_prints xs)"

section \<open>The ingestion script (\<^verbatim>\<open>homework01/ingest_homework_data.py\<close>)\<close>

text \<open>
  \<^verbatim>\<open>pd.read_parquet\<close> and \<^verbatim>\<open>pd.read_csv\<close>: the file must exist and be of the format
  the reader expects.
\<close>

definition read_parquet :: "string \<Rightarrow> hw_world \<Rightarrow> py_error + dataset" where
  "read_parquet path w =
     (case disk w path of
        None \<Rightarrow> Inl FileNotFoundError
      | Some (ParquetFile d) \<Rightarrow> Inr d
      | Some (CsvFile d) \<Rightarrow> Inl ParserError)"

definition read_csv :: "string \<Rightarrow> hw_world \<Rightarrow> py_error + dataset" where
  "read_csv path w =
     (case disk w path of
        None \<Rightarrow> Inl FileNotFoundError
      | Some (CsvFile d) \<Rightarrow> Inr d
      | Some (ParquetFile d) \<Rightarrow> Inl ParserError)"

text \<open>
  \<^verbatim>\<open>d.to_sql(name=name, con=engine, if_exists='replace', index=False)\<close>: the table of
  that name, if there is one, is dropped, and a new one holds the rows of the frame.
\<close>

definition to_sql :: "dataset \<Rightarrow> string \<Rightarrow> hw_world \<Rightarrow> hw_world outcome" where
  "to_sql d name w =
     (if reachable (db w)
      then Exit0 (w\<lparr>db := (db w)\<lparr>tables := (tables (db w))(name \<mapsto> d)\<rparr>\<rparr>)
      else Raised OperationalError w)"

text \<open>The columns of a frame without its rows, for the prints of columns and types.\<close>

fun columns :: "dataset \<Rightarrow> dataset" where
  "columns (Trips rows) = Trips []"
| "columns (Zones rows) = Zones []"

definition rule60 :: hw_printed where
  "rule60 = HStr (lit (replicate 60 CHR ''=''))"

definition nl_rule60 :: hw_printed where
  "nl_rule60 = HStr (lit (CHR 0x0A # replicate 60 CHR ''=''))"

text \<open>
  \<^verbatim>\<open>main()\<close>, line by line. Five messages open with the check mark U+2713, the first of
  them before anything is sent to the database.
\<close>

definition ingest_main :: "hw_world \<Rightarrow> hw_world outcome" where
  "ingest_main w0 =
     and_then (hw_prints
       [rule60, HStr (lit ''Loading Green Taxi data from parquet file...''), rule60] w0) (\<lambda>w1.
     case read_parquet ''green_tripdata_2025-11.parquet'' w1 of
       Inl e \<Rightarrow> Raised e w1
     | Inr df_green \<Rightarrow>
         and_then (hw_prints
           [HTimed (check_mark # lit '' Loaded '') (len df_green) (lit '' rows in '') (lit '' seconds''),
            HFrame (lit (CHR 0x0A # ''Columns: '')) (columns df_green),
            HFrame (lit (CHR 0x0A # ''Data types:'' @ [CHR 0x0A])) (columns df_green),
            HFrame (lit (CHR 0x0A # ''First few rows:'' @ [CHR 0x0A])) (dataset_head df_green),
            nl_rule60, HStr (lit ''Inserting into green_taxi_data table...''), rule60] w1) (\<lambda>w2.
         and_then (to_sql df_green ''green_taxi_data'' w2) (\<lambda>w3.
         and_then (hw_prints
           [HTimed (check_mark # lit '' Inserted '') (len df_green) (lit '' rows in '') (lit '' seconds''),
            nl_rule60, HStr (lit ''Loading taxi zone lookup from CSV...''), rule60] w3) (\<lambda>w4.
         case read_csv ''taxi_zone_lookup.csv'' w4 of
           Inl e \<Rightarrow> Raised e w4
         | Inr df_zones \<Rightarrow>
             and_then (hw_prints
               [HRows (check_mark # lit '' Loaded '') (len df_zones) (lit '' zones''),
                HFrame (lit (CHR 0x0A # ''Zone data:'' @ [CHR 0x0A])) (dataset_head df_zones),
                nl_rule60, HStr (lit ''Inserting into zones table...''), rule60] w4) (\<lambda>w5.
             and_then (to_sql df_zones ''zones'' w5) (\<lambda>w6.
             hw_prints
               [HRows (check_mark # lit '' Inserted '') (len df_zones) (lit '' zones''),
                nl_rule60, HStr (check_mark # lit '' Data ingestion complete!''), rule60,
                HStr (lit (CHR 0x0A # ''You can now connect to pgAdmin at http://localhost:8080'')),
                HStr (lit ''  Email: pgadmin@pgadmin.com''),
                HStr (lit ''  Password: pgadmin''),
                HStr (lit (CHR 0x0A # ''Server connection in pgAdmin:'')),
                HStr (lit ''  Host: db (or postgres)''),
                HStr (lit ''  Port: 5432''),
                HStr (lit ''  Username: postgres''),
                HStr (lit ''  Password: postgres''),
                HStr (lit ''  Database: ny_taxi'')] w6))))))"

section \<open>The query script (\<^verbatim>\<open>homework01/homework_queries.py\<close>)\<close>

text \<open>
  \<^verbatim>\<open>run_query(engine, question_num, description, query)\<close> prints the heading and the
  statement, runs it, and prints what it returned. The table it returns to its caller is
  dropped by every caller, so the model keeps it on the console only.
\<close>

definition run_query :: "nat \<Rightarrow> string \<Rightarrow> query \<Rightarrow> hw_world \<Rightarrow> hw_world outcome" where
  "run_query question_num description query w0 =
     and_then (hw_prints
       [HStr (lit (CHR 0x0A # replicate 80 CHR ''='')),
        HStr (lit (''Question '' @ str_int (int question_num) @ '': '' @ description)),
        HStr (lit (replicate 80 CHR ''='')),
        HStr (lit (CHR 0x0A # ''SQL Query:'')),
        HStr (lit (replicate 80 CHR ''-'')),
        HSql query,
        HStr (lit (replicate 80 CHR ''-''))] w0) (\<lambda>w1.
     case read_sql query (db w1) of
       Inl e \<Rightarrow> Raised e w1
     | Inr res \<Rightarrow>
         hw_prints [HStr (lit (CHR 0x0A # ''Result:'')), HResult res, HStr (lit [CHR 0x0A])]
           (w1\<lparr>executed := executed w1 @ [query]\<rparr>))"

definition queries_main :: "hw_world \<Rightarrow> hw_world outcome" where
  "queries_main w0 =
     and_then (run_query 3 ''Counting short trips (distance <= 1 mile)'' Q3 w0) (\<lambda>w1.
     and_then (run_query 4 ''Day with longest trip distance'' Q4 w1) (\<lambda>w2.
     and_then (run_query 5 ''Pickup zone with largest total_amount on Nov 18'' Q5 w2) (\<lambda>w3.
     run_query 6 ''Dropoff zone with largest tip from East Harlem North'' Q6 w3)))"

section \<open>Notions used to state the properties\<close>

text \<open>
  What a run of the pipeline runner prints before it calls \<^verbatim>\<open>int\<close> (one call when the
  argument is missing, else two), what it prints in all when its argument parses to \<open>m\<close>,
  and that the standard output takes all of a given list of calls.
\<close>

definition pipeline_first_prints :: "py_str list \<Rightarrow> printed list list" where
  "pipeline_first_prints argv =
     [PStr (lit ''arguments:''), PList argv] #
     (if length argv < 2 then []
      else [[PStr (lit (CHR 0x0A # ''first argument:'')), PStr (argv ! 1)]])"

definition pipeline_prints :: "py_str list \<Rightarrow> int \<Rightarrow> printed list list" where
  "pipeline_prints argv m =
     pipeline_first_prints argv @
     [[PStr (lit (CHR 0x0A # ''Running pipeline for month '' @ str_int m))],
      [PStr (lit (CHR 0x0A # ''Dataframe:''))],
      [PFrame (head df)],
      [PStr (lit (CHR 0x0A # ''Dataframe for month '' @ str_int m @ '':''))],
      [PFrame (df_month m)]]"

definition stdout_takes :: "world \<Rightarrow> printed list list \<Rightarrow> bool" where
  "stdout_takes w calls \<longleftrightarrow> list_all (list_all (\<lambda>x. print_error w x = None)) calls"

text \<open>
  What the ingestion script prints up to the moment it reads the zone file, for the frame
  \<open>g\<close> of trips, and from there to its end, for the frame \<open>z\<close> of zones; and that the
  console takes all of a given list of messages.
\<close>

definition ingest_prints_trips :: "dataset \<Rightarrow> hw_printed list" where
  "ingest_prints_trips g =
     [rule60, HStr (lit ''Loading Green Taxi data from parquet file...''), rule60,
      HTimed (check_mark # lit '' Loaded '') (len g) (lit '' rows in '') (lit '' seconds''),
      HFrame (lit (CHR 0x0A # ''Columns: '')) (columns g),
      HFrame (lit (CHR 0x0A # ''Data types:'' @ [CHR 0x0A])) (columns g),
      HFrame (lit (CHR 0x0A # ''First few rows:'' @ [CHR 0x0A])) (dataset_head g),
      nl_rule60, HStr (lit ''Inserting into green_taxi_data table...''), rule60,
      HTimed (check_mark # lit '' Inserted '') (len g) (lit '' rows in '') (lit '' seconds''),
      nl_rule60, HStr (lit ''Loading taxi zone lookup from CSV...''), rule60]"

definition ingest_prints_zones :: "dataset \<Rightarrow> hw_printed list" where
  "ingest_prints_zones z =
     [HRows (check_mark # lit '' Loaded '') (len z) (lit '' zones''),
      HFrame (lit (CHR 0x0A # ''Zone data:'' @ [CHR 0x0A])) (dataset_head z),
      nl_rule60, HStr (lit ''Inserting into zones table...''), rule60,
      HRows (check_mark # lit '' Inserted '') (len z) (lit '' zones''),
      nl_rule60, HStr (check_mark # lit '' Data ingestion complete!''), rule60,
      HStr (lit (CHR 0x0A # ''You can now connect to pgAdmin at http://localhost:8080'')),
      HStr (lit ''  Email: pgadmin@pgadmin.com''),
      HStr (lit ''  Password: pgadmin''),
      HStr (lit (CHR 0x0A # ''Server connection in pgAdmin:'')),
      HStr (lit ''  Host: db (or postgres)''),
      HStr (lit ''  Port: 5432''),
      HStr (lit ''  Username: postgres''),
      HStr (lit ''  Password: postgres''),
      HStr (lit ''  Database: ny_taxi'')]"

definition console_takes :: "hw_world \<Rightarrow> hw_printed list \<Rightarrow> bool" where
  "console_takes w xs \<longleftrightarrow> list_all (\<lambda>x. console_error w x = None) xs"

text \<open>
  A trip that the count of the first statement is about, said without SQL's third truth
  value: its pickup time is known and lies in November 2025, and its distance is known
  and at most 1.
\<close>

definition short_november_trip :: "trip \<Rightarrow> bool" where
  "short_november_trip g =
     (case lpep_pickup_datetime g of
        None \<Rightarrow> False
      | Some p \<Rightarrow>
          (case trip_distance g of
             None \<Rightarrow> False
           | Some d \<Rightarrow>
               ts_le (midnight (2025, 11, 1)) p \<and> ts_less p (midnight (2025, 12, 1)) \<and> d \<le> 1))"

text \<open>
  For the second statement: the trips whose distance is not 100 or more (in SQL's
  logic, so that an unknown distance does not qualify), the day a trip was picked up,
  and the largest known distance among the trips of one day.
\<close>

definition not_100_or_more :: "trip \<Rightarrow> bool" where
  "not_100_or_more g \<longleftrightarrow> sql_not (sql_cmp (\<ge>) (trip_distance g) (Some 100)) = Some True"

definition pickup_date :: "trip \<Rightarrow> date option" where
  "pickup_date g = sql_date (lpep_pickup_datetime g)"

definition day_maximum :: "trip list \<Rightarrow> date option \<Rightarrow> real" where
  "day_maximum trips day =
     Max (set (non_null (map trip_distance (filter (\<lambda>g. pickup_date g = day) trips))))"

text \<open>Whether a console entry shows a statement or the table a statement returned.\<close>

fun shows_statement_or_result :: "hw_printed \<Rightarrow> bool" where
  "shows_statement_or_result (HSql q) = True"
| "shows_statement_or_result (HResult r) = True"
| "shows_statement_or_result (HStr s) = False"
| "shows_statement_or_result (HRows a n b) = False"
| "shows_statement_or_result (HTimed a n b c) = False"
| "shows_statement_or_result (HFrame s d) = False"

text \<open>A small database and working directory, to run the scripts on.\<close>

definition trip1 :: trip where
  "trip1 = \<lparr>lpep_pickup_datetime = Some ((2025, 11, 18), 100), trip_distance = Some (1 / 2),
     PULocationID = Some 74, DOLocationID = Some 75,
     total_amount = Some (21 / 2), tip_amount = Some 2\<rparr>"

definition trip2 :: trip where
  "trip2 = \<lparr>lpep_pickup_datetime = Some ((2025, 11, 18), 200), trip_distance = Some 120,
     PULocationID = Some 74, DOLocationID = Some 76,
     total_amount = Some 7, tip_amount = None\<rparr>"

definition trip3 :: trip where
  "trip3 = \<lparr>lpep_pickup_datetime = Some ((2025, 11, 19), 200), trip_distance = Some 12,
     PULocationID = Some 75, DOLocationID = Some 74,
     total_amount = None, tip_amount = Some 1\<rparr>"

definition trip4 :: trip where
  "trip4 = \<lparr>lpep_pickup_datetime = None, trip_distance = None,
     PULocationID = Some 75, DOLocationID = None,
     total_amount = None, tip_amount = Some 1\<rparr>"

definition example_zones :: "zone list" where
  "example_zones =
     [\<lparr>LocationID = Some 74, Zone = Some ''East Harlem North''\<rparr>,
      \<lparr>LocationID = Some 75, Zone = Some ''East Harlem South''\<rparr>,
      \<lparr>LocationID = Some 76, Zone = None\<rparr>]"

definition example_engine :: engine where
  "example_engine =
     \<lparr>reachable = True,
      tables = [''green_taxi_data'' \<mapsto> Trips [trip1, trip2, trip3, trip4],
                ''zones'' \<mapsto> Zones example_zones]\<rparr>"

text \<open>
  Worlds for the three scripts, all with a standard output that takes everything it is
  given. For the pipeline runner: no file yet,
  every path writable. For the two homework scripts: one whose database already holds
  what the files hold, one whose database holds an older table of trips and no table of
  zones, and the latter with the zone file gone.
\<close>

definition empty_world :: world where
  "empty_world = \<lparr>stdout = [], print_error = (\<lambda>x. None), files = Map.empty, writable = (\<lambda>p. True)\<rparr>"

definition example_world :: hw_world where
  "example_world =
     \<lparr>console = [],
      console_error = (\<lambda>x. None),
      disk = [''green_tripdata_2025-11.parquet'' \<mapsto> ParquetFile (Trips [trip1, trip2, trip3, trip4]),
              ''taxi_zone_lookup.csv'' \<mapsto> CsvFile (Zones example_zones)],
      db = example_engine,
      executed = []\<rparr>"

definition stale_world :: hw_world where
  "stale_world =
     example_world\<lparr>db := \<lparr>reachable = True,
                           tables = [''green_taxi_data'' \<mapsto> Trips [trip4, trip4]]\<rparr>\<rparr>"

definition stale_world_without_zone_file :: hw_world where
  "stale_world_without_zone_file =
     stale_world\<lparr>disk :=
       [''green_tripdata_2025-11.parquet'' \<mapsto> ParquetFile (Trips [trip1, trip2, trip3, trip4])]\<rparr>"

section \<open>Properties of the pipeline runner\<close>

subsection \<open>What \<^verbatim>\<open>int\<close> accepts\<close>

lemma py_int_error: "py_int s = Inl e \<Longrightarrow> e = ValueError"
  by (simp add: py_int_def Let_def split: list.splits if_splits option.splits)

lemmas py_int_defs = py_int_def lit_def transform_decimal_and_space_to_ascii_def strip_def
  py_isspace_def py_unicode_isspace_def py_unicode_todecimal_def decimal_zeros_def
  isdigit_def digit_val_def int_max_str_digits_def

lemma py_int_3: "py_int (lit ''3'') = Inr 3"
  by (simp add: py_int_defs)

lemma py_int_13: "py_int (lit ''13'') = Inr 13"
  by (simp add: py_int_defs)

lemma py_int_twelve: "py_int (lit ''twelve'') = Inl ValueError"
  by (simp add: py_int_defs)

text \<open>
  White space around the number, a sign and single underscores are accepted; so are a
  no-break space (U+00A0) and the digits of other scripts, here the Arabic-Indic digits
  one and two and a mathematical digit nine.
\<close>

lemma py_int_spaces_sign_underscore: "py_int (lit '' -1_2 '') = Inr (- 12)"
  by (simp add: py_int_defs)

lemma py_int_no_break_space: "py_int [0xA0, 0x31, 0x32] = Inr 12"
  by (simp add: py_int_defs)

lemma py_int_arabic_indic_digits: "py_int [0x661, 0x662] = Inr 12"
  by (simp add: py_int_defs)

lemma py_int_mathematical_digit: "py_int [0x1D7FF] = Inr 9"
  by (simp add: py_int_defs)

text \<open>
  The separators U+001C to U+001F are refused, alone with the number and in a text that
  holds characters beyond ASCII as well; so are a lone surrogate and the check mark.
\<close>

lemma py_int_separator: "py_int [0x1C, 0x33] = Inl ValueError"
  by (simp add: py_int_defs)

lemma py_int_separator_13: "py_int [0x1D, 0x31, 0x33] = Inl ValueError"
  by (simp add: py_int_defs)

lemma py_int_separator_beyond_ascii: "py_int [0x1C, 0x33, 0xA0] = Inl ValueError"
  by (simp add: py_int_defs)

lemma py_int_surrogate: "py_int [0xDC80, 0x33] = Inl ValueError"
  by (simp add: py_int_defs)

lemma py_int_check_mark: "py_int [check_mark, 0x33] = Inl ValueError"
  by (simp add: py_int_defs check_mark_def)

subsection \<open>What \<^verbatim>\<open>str\<close> writes, \<^verbatim>\<open>int\<close> reads back\<close>

lemma isdigit_not_special:
  assumes "isdigit c"
  shows "\<not> py_isspace c" and "c \<noteq> 0x5F" and "c \<noteq> 0x2D" and "c \<noteq> 0x2B" and "c < 128"
  using assms by (auto simp: isdigit_def py_isspace_def)

lemma int_digits_all_digits:
  assumes "\<forall>c \<in> set ds. isdigit c"
  shows "int_digits acc ds = Some (foldl (\<lambda>a c. 10 * a + digit_val c) acc ds)"
  using assms
proof (induction ds arbitrary: acc)
  case Nil
  then show ?case by simp
next
  case (Cons c ds)
  then have "isdigit c" and "c \<noteq> 0x5F"
    by (simp_all add: isdigit_not_special)
  with Cons show ?case
    by simp
qed

lemma str_nat_digits: "\<forall>c \<in> set (lit (str_nat n)). isdigit c"
proof (induction n rule: str_nat.induct)
  case (1 n)
  show ?case
  proof (cases "n < 10")
    case True
    then show ?thesis
      by (subst str_nat.simps) (simp add: lit_def isdigit_def)
  next
    case False
    moreover have "n mod 10 < 10"
      by simp
    ultimately show ?thesis
      using "1" by (subst str_nat.simps) (simp add: lit_def isdigit_def)
  qed
qed

lemma str_nat_value: "foldl (\<lambda>a c. 10 * a + digit_val c) 0 (lit (str_nat n)) = n"
proof (induction n rule: str_nat.induct)
  case (1 n)
  show ?case
  proof (cases "n < 10")
    case True
    then show ?thesis
      by (subst str_nat.simps) (simp add: lit_def digit_val_def)
  next
    case False
    moreover have "n mod 10 < 10"
      by simp
    ultimately show ?thesis
      using "1" by (subst str_nat.simps) (simp add: lit_def digit_val_def)
  qed
qed

lemma str_nat_not_Nil: "lit (str_nat n) \<noteq> []"
  by (subst str_nat.simps) (simp add: lit_def)

lemma strip_no_outer_space:
  assumes "s \<noteq> []" and "\<not> py_isspace (hd s)" and "\<not> py_isspace (last s)"
  shows "strip s = s"
proof -
  from assms(1,2) have "dropWhile py_isspace s = s"
    by (cases s) simp_all
  moreover from assms(1,3) have "dropWhile py_isspace (rev s) = rev s"
    by (cases "rev s") (simp_all add: last_rev [symmetric] hd_rev)
  ultimately show ?thesis
    by (simp add: strip_def)
qed

lemma py_int_digits:
  assumes digits: "\<forall>c \<in> set (d # ds). isdigit c"
    and short: "length (d # ds) \<le> int_max_str_digits"
    and body: "strip (transform_decimal_and_space_to_ascii s) = d # ds"
  shows "py_int s = Inr (int (foldl (\<lambda>a c. 10 * a + digit_val c) 0 (d # ds)))"
proof -
  from digits have d: "isdigit d" and ds: "\<forall>c \<in> set ds. isdigit c"
    by simp_all
  from d have "d \<noteq> 0x2D" and "d \<noteq> 0x2B"
    by (simp_all add: isdigit_not_special)
  moreover have "int_digits (digit_val d) ds =
      Some (foldl (\<lambda>a c. 10 * a + digit_val c) (digit_val d) ds)"
    using ds by (rule int_digits_all_digits)
  moreover have "filter isdigit (d # ds) = d # ds"
    using digits by (simp only: filter_True)
  ultimately show ?thesis
    using body d short by (simp add: py_int_def Let_def)
qed

lemma py_int_minus_digits:
  assumes digits: "\<forall>c \<in> set (d # ds). isdigit c"
    and short: "length (d # ds) \<le> int_max_str_digits"
    and body: "strip (transform_decimal_and_space_to_ascii s) = 0x2D # d # ds"
  shows "py_int s = Inr (- int (foldl (\<lambda>a c. 10 * a + digit_val c) 0 (d # ds)))"
proof -
  from digits have d: "isdigit d" and ds: "\<forall>c \<in> set ds. isdigit c"
    by simp_all
  have "int_digits (digit_val d) ds =
      Some (foldl (\<lambda>a c. 10 * a + digit_val c) (digit_val d) ds)"
    using ds by (rule int_digits_all_digits)
  moreover have "filter isdigit (d # ds) = d # ds"
    using digits by (simp only: filter_True)
  ultimately show ?thesis
    using body d short by (simp add: py_int_def Let_def)
qed

text \<open>
  Every integer whose decimal form has at most 4300 digits is the value of an argument
  that \<^verbatim>\<open>int\<close> accepts, namely of what \<^verbatim>\<open>str\<close> writes for it.
\<close>

lemma py_int_str_int:
  assumes "length (str_nat (nat \<bar>m\<bar>)) \<le> int_max_str_digits"
  shows "py_int (lit (str_int m)) = Inr m"
proof -
  obtain d ds where dds: "lit (str_nat (nat \<bar>m\<bar>)) = d # ds"
    using str_nat_not_Nil [of "nat \<bar>m\<bar>"] by (cases "lit (str_nat (nat \<bar>m\<bar>))") auto
  have digits: "\<forall>c \<in> set (d # ds). isdigit c"
    using str_nat_digits [of "nat \<bar>m\<bar>"] by (simp only: dds)
  have short: "length (d # ds) \<le> int_max_str_digits"
    using assms by (simp add: dds [symmetric] lit_def)
  have "foldl (\<lambda>a c. 10 * a + digit_val c) 0 (d # ds) = nat \<bar>m\<bar>"
    using str_nat_value [of "nat \<bar>m\<bar>"] by (simp only: dds)
  then have val: "foldl (\<lambda>a c. 10 * a + digit_val c) (digit_val d) ds = nat \<bar>m\<bar>"
    by simp
  from digits have "isdigit d" and "isdigit (last (d # ds))"
    by simp_all
  then have ends: "\<not> py_isspace d" "\<not> py_isspace (last (d # ds))"
    by (simp_all add: isdigit_not_special)
  from digits have ascii: "list_all (\<lambda>c. c < 128) (d # ds)"
    unfolding list_all_iff by (blast intro: isdigit_not_special(5))
  show ?thesis
  proof (cases "m < 0")
    case True
    then have s: "lit (str_int m) = 0x2D # d # ds"
      by (simp add: str_int_def dds [symmetric] abs_if lit_def)
    have "transform_decimal_and_space_to_ascii (lit (str_int m)) = 0x2D # d # ds"
      using ascii by (simp add: s transform_decimal_and_space_to_ascii_def)
    moreover have "\<not> py_isspace 0x2D"
      by (simp add: py_isspace_def)
    then have "strip (0x2D # d # ds) = 0x2D # d # ds"
      using ends strip_no_outer_space [of "0x2D # d # ds"] by simp
    ultimately have "strip (transform_decimal_and_space_to_ascii (lit (str_int m))) = 0x2D # d # ds"
      by (simp only:)
    from py_int_minus_digits [OF digits short this] True show ?thesis
      by (simp add: val)
  next
    case False
    then have s: "lit (str_int m) = d # ds"
      by (simp add: str_int_def dds [symmetric] abs_if)
    have "transform_decimal_and_space_to_ascii (lit (str_int m)) = d # ds"
      using ascii by (simp add: s transform_decimal_and_space_to_ascii_def)
    moreover have "strip (d # ds) = d # ds"
      using ends strip_no_outer_space [of "d # ds"] by simp
    ultimately have "strip (transform_decimal_and_space_to_ascii (lit (str_int m))) = d # ds"
      by (simp only:)
    from py_int_digits [OF digits short this] False show ?thesis
      by (simp add: val)
  qed
qed

subsection \<open>The table and the run\<close>

lemma length_df: "length df = 12"
  by (simp add: df_def DataFrame_def)

lemma df_rows:
  "df = [\<lparr>index = 0, month = 1, num_passengers = 10\<rparr>,
         \<lparr>index = 1, month = 2, num_passengers = 20\<rparr>,
         \<lparr>index = 2, month = 3, num_passengers = 30\<rparr>,
         \<lparr>index = 3, month = 4, num_passengers = 40\<rparr>,
         \<lparr>index = 4, month = 5, num_passengers = 50\<rparr>,
         \<lparr>index = 5, month = 6, num_passengers = 60\<rparr>,
         \<lparr>index = 6, month = 7, num_passengers = 70\<rparr>,
         \<lparr>index = 7, month = 8, num_passengers = 80\<rparr>,
         \<lparr>index = 8, month = 9, num_passengers = 90\<rparr>,
         \<lparr>index = 9, month = 10, num_passengers = 100\<rparr>,
         \<lparr>index = 10, month = 11, num_passengers = 110\<rparr>,
         \<lparr>index = 11, month = 12, num_passengers = 120\<rparr>]"
  by (simp add: df_def DataFrame_def upt_conv_Cons)

lemma df_month_in_range:
  assumes "1 \<le> m" "m \<le> 12"
  shows "df_month m = [\<lparr>index = nat (m - 1), month = m, num_passengers = 10 * m\<rparr>]"
proof -
  from assms have "m = 1 \<or> m = 2 \<or> m = 3 \<or> m = 4 \<or> m = 5 \<or> m = 6 \<or> m = 7 \<or> m = 8
      \<or> m = 9 \<or> m = 10 \<or> m = 11 \<or> m = 12"
    by arith
  then show ?thesis
    by (elim disjE) (simp_all add: df_month_def df_rows)
qed

lemma df_month_out_of_range:
  assumes "m < 1 \<or> 12 < m"
  shows "df_month m = []"
  using assms by (auto simp: df_month_def df_rows)

lemma map_filter_Nil_iff: "List.map_filter f xs = [] \<longleftrightarrow> list_all (\<lambda>x. f x = None) xs"
  by (induction xs) (auto simp: map_filter_simps split: option.splits)

lemma py_print_ok:
  assumes "list_all (\<lambda>x. print_error w x = None) args"
  shows "py_print args w = Exit0 (w\<lparr>stdout := stdout w @ [args]\<rparr>)"
proof -
  from assms have "List.map_filter (print_error w) args = []"
    by (simp only: map_filter_Nil_iff)
  then show ?thesis
    by (simp add: py_print_def)
qed

lemma py_print_not_taken:
  assumes "\<not> list_all (\<lambda>x. print_error w x = None) args"
  shows "\<exists>e w'. py_print args w = Raised e w' \<and> files w' = files w"
proof -
  from assms have "List.map_filter (print_error w) args \<noteq> []"
    by (simp only: map_filter_Nil_iff not_False_eq_True)
  then obtain e es where "List.map_filter (print_error w) args = e # es"
    by (cases "List.map_filter (print_error w) args") simp_all
  then show ?thesis
    by (simp add: py_print_def)
qed

text \<open>
  Once the argument has parsed, and on a standard output that takes what is printed,
  the run is seven \<^verbatim>\<open>print\<close> calls followed by the write; arguments after the
  first are printed with the list and otherwise ignored.
\<close>

lemma pipeline_parsed:
  assumes "py_int s = Inr m"
    and "stdout_takes w (pipeline_prints (prog # s # rest) m)"
  shows "pipeline (prog # s # rest) w =
     to_parquet df (output_path m)
       (w\<lparr>stdout := stdout w @ pipeline_prints (prog # s # rest) m\<rparr>)"
  using assms
  by (simp add: pipeline_def py_print_ok stdout_takes_def pipeline_prints_def
      pipeline_first_prints_def)

text \<open>
  Whatever the arguments and the world, a run leaves the files as they were or has
  written the whole table to the one path named after the parsed argument.
\<close>

lemma pipeline_files:
  "files (final_world (pipeline argv w)) = files w
   \<or> (\<exists>m. py_int (argv ! 1) = Inr m
         \<and> files (final_world (pipeline argv w)) = (files w)(output_path m \<mapsto> df))"
  by (auto simp: pipeline_def py_print_def to_parquet_def split: sum.splits list.splits)

lemma output_path_3:
  "output_path 3 = ''01-docker-terraform/docker-sql/pipeline/output_3.parquet''"
  by code_simp

lemma output_path_13:
  "output_path 13 = ''01-docker-terraform/docker-sql/pipeline/output_13.parquet''"
  by code_simp

lemma empty_world_takes: "stdout_takes empty_world calls"
  by (simp add: stdout_takes_def empty_world_def list_all_iff)

lemma empty_world_fields:
  "stdout empty_world = []" "files empty_world = Map.empty"
  "writable empty_world p" "print_error empty_world x = None"
  by (simp_all add: empty_world_def)

text \<open>
  So every integer \<open>m\<close> of at most 4300 digits can be handed to the script, as the text
  \<^verbatim>\<open>str\<close> writes for it, and the run then writes the whole table to the file named
  after \<open>m\<close>.
\<close>

lemma pipeline_str_int_argument:
  assumes "length (str_nat (nat \<bar>m\<bar>)) \<le> int_max_str_digits"
  shows "\<exists>w'. pipeline [prog, lit (str_int m)] empty_world = Exit0 w'
           \<and> files w' = [output_path m \<mapsto> df]"
  using py_int_str_int [OF assms]
  by (simp add: pipeline_parsed empty_world_takes to_parquet_def empty_world_fields)

text \<open>
  C2. Whenever the argument parses to an integer \<open>m\<close>, the standard output takes what
  the run prints and the output path can be written, the run ends normally and has
  changed one file only: the one named after \<open>m\<close>, which now holds the whole table \<open>df\<close>
  (12 rows, months 1 to 12), whatever \<open>m\<close> is; the filtered table \<open>df_month m\<close> has at
  most one row and is not what is written.
\<close>

theorem pipeline_writes_whole_table:
  assumes "py_int s = Inr m"
    and "stdout_takes w (pipeline_prints (prog # s # rest) m)"
    and "writable w (output_path m)"
  shows "\<exists>w'. pipeline (prog # s # rest) w = Exit0 w'
           \<and> files w' = (files w)(output_path m \<mapsto> df)
           \<and> length df = 12
           \<and> map month df = [1, 2, 3, 4, 5, 6, 7, 8, 9, 10, 11, 12]
           \<and> df_month m \<noteq> df"
proof -
  have "length (df_month m) \<le> 1"
    by (cases "1 \<le> m \<and> m \<le> 12")
      (auto simp: df_month_in_range df_month_out_of_range)
  then have "df_month m \<noteq> df"
    using length_df by auto
  moreover have "map month df = [1, 2, 3, 4, 5, 6, 7, 8, 9, 10, 11, 12]"
    by (simp add: df_rows)
  ultimately show ?thesis
    using assms by (simp add: pipeline_parsed to_parquet_def length_df)
qed

theorem pipeline_writes_whole_table_witness:
  "py_int (lit ''3'') = Inr 3
   \<and> stdout_takes empty_world (pipeline_prints [lit ''pipeline.py'', lit ''3''] 3)
   \<and> (\<exists>w'. pipeline [lit ''pipeline.py'', lit ''3''] empty_world = Exit0 w'
         \<and> files w' ''01-docker-terraform/docker-sql/pipeline/output_3.parquet'' = Some df
         \<and> length df = 12)"
  using pipeline_writes_whole_table [of "lit ''3''" 3 empty_world "lit ''pipeline.py''" "[]"]
  by (auto simp: py_int_3 output_path_3 empty_world_takes empty_world_fields)

text \<open>
  C3. For an argument that parses to a month \<open>m\<close> from 1 to 12, and on a standard output
  that takes what the run prints, the filtered table has exactly one row, the row of
  \<open>df\<close> whose month is \<open>m\<close> (index \<open>m - 1\<close>, \<open>10 * m\<close> passengers), and that table is the
  last thing the run prints, whether or not the write that follows succeeds.
\<close>

theorem pipeline_prints_one_row:
  assumes "py_int s = Inr m" and "1 \<le> m" and "m \<le> 12"
    and "stdout_takes w (pipeline_prints (prog # s # rest) m)"
  shows "df_month m = [\<lparr>index = nat (m - 1), month = m, num_passengers = 10 * m\<rparr>]
         \<and> stdout (final_world (pipeline (prog # s # rest) w)) =
             stdout w @
               [[PStr (lit ''arguments:''), PList (prog # s # rest)],
                [PStr (lit (CHR 0x0A # ''first argument:'')), PStr s],
                [PStr (lit (CHR 0x0A # ''Running pipeline for month '' @ str_int m))],
                [PStr (lit (CHR 0x0A # ''Dataframe:''))],
                [PFrame (head df)],
                [PStr (lit (CHR 0x0A # ''Dataframe for month '' @ str_int m @ '':''))],
                [PFrame [\<lparr>index = nat (m - 1), month = m, num_passengers = 10 * m\<rparr>]]]"
proof -
  have row: "df_month m = [\<lparr>index = nat (m - 1), month = m, num_passengers = 10 * m\<rparr>]"
    using assms(2,3) by (rule df_month_in_range)
  have "stdout (final_world (pipeline (prog # s # rest) w)) =
      stdout w @ pipeline_prints (prog # s # rest) m"
    using assms(1,4) by (simp add: pipeline_parsed to_parquet_def)
  then show ?thesis
    by (simp add: row pipeline_prints_def pipeline_first_prints_def)
qed

theorem pipeline_prints_one_row_witness:
  "py_int (lit ''3'') = Inr 3
   \<and> stdout_takes empty_world (pipeline_prints [lit ''pipeline.py'', lit ''3''] 3)
   \<and> df_month 3 = [\<lparr>index = 2, month = 3, num_passengers = 30\<rparr>]
   \<and> last (stdout (final_world (pipeline [lit ''pipeline.py'', lit ''3''] empty_world))) =
       [PFrame [\<lparr>index = 2, month = 3, num_passengers = 30\<rparr>]]"
  using pipeline_prints_one_row [of "lit ''3''" 3 empty_world "lit ''pipeline.py''" "[]"]
  by (simp add: py_int_3 empty_world_takes empty_world_fields)

text \<open>
  C4. When the argument is missing (\<open>argv\<close> has fewer than two entries) or is refused by
  \<^verbatim>\<open>int\<close>, the run ends in an exception and the files are those of the start: the
  exception comes before the write. The exception is \<^verbatim>\<open>IndexError\<close> in the first case
  and \<^verbatim>\<open>ValueError\<close> in the second when the standard output takes what is printed
  before; when it does not, the run has ended earlier still, in the exception of the
  failing \<^verbatim>\<open>print\<close>.
\<close>

theorem pipeline_bad_argument_raises_before_write:
  assumes "length argv < 2 \<or> isl (py_int (argv ! 1))"
  shows "\<exists>e w'. pipeline argv w = Raised e w'
           \<and> files w' = files w
           \<and> (stdout_takes w (pipeline_first_prints argv) \<longrightarrow>
                e = (if length argv < 2 then IndexError else ValueError))"
proof (cases "list_all (\<lambda>x. print_error w x = None) [PStr (lit ''arguments:''), PList argv]")
  case False
  then have "\<not> stdout_takes w (pipeline_first_prints argv)"
    by (auto simp: stdout_takes_def pipeline_first_prints_def)
  moreover from py_print_not_taken [OF False] obtain e w' where
    "py_print [PStr (lit ''arguments:''), PList argv] w = Raised e w'" "files w' = files w"
    by blast
  ultimately show ?thesis
    by (simp add: pipeline_def)
next
  case first: True
  note print1 = py_print_ok [OF first]
  show ?thesis
  proof (cases "length argv < 2")
    case True
    then show ?thesis
      by (simp add: pipeline_def print1)
  next
    case long: False
    with assms obtain e where "py_int (argv ! 1) = Inl e"
      by (auto simp: isl_def)
    moreover from this have "e = ValueError"
      by (rule py_int_error)
    ultimately have refused: "py_int (argv ! 1) = Inl ValueError"
      by simp
    define w1 where "w1 = w\<lparr>stdout := stdout w @ [[PStr (lit ''arguments:''), PList argv]]\<rparr>"
    have run: "pipeline argv w =
        and_then (py_print [PStr (lit (CHR 0x0A # ''first argument:'')), PStr (argv ! 1)] w1)
          (\<lambda>w2. Raised ValueError w2)"
      using long refused by (simp add: pipeline_def print1 w1_def)
    show ?thesis
    proof (cases "list_all (\<lambda>x. print_error w1 x = None)
        [PStr (lit (CHR 0x0A # ''first argument:'')), PStr (argv ! 1)]")
      case True
      from py_print_ok [OF True] long show ?thesis
        by (simp add: run w1_def)
    next
      case False
      then have "\<not> stdout_takes w (pipeline_first_prints argv)"
        using long by (auto simp: stdout_takes_def pipeline_first_prints_def w1_def)
      moreover from py_print_not_taken [OF False] obtain e w' where
        "py_print [PStr (lit (CHR 0x0A # ''first argument:'')), PStr (argv ! 1)] w1 = Raised e w'"
        "files w' = files w1"
        by blast
      ultimately show ?thesis
        by (simp add: run w1_def)
    qed
  qed
qed

theorem pipeline_bad_argument_witness:
  "(\<exists>w'. pipeline [lit ''pipeline.py''] empty_world = Raised IndexError w'
        \<and> files w' = Map.empty)
   \<and> isl (py_int (lit ''twelve''))
   \<and> (\<exists>w'. pipeline [lit ''pipeline.py'', lit ''twelve''] empty_world = Raised ValueError w'
        \<and> files w' = Map.empty)
   \<and> isl (py_int [0x1C, 0x33])
   \<and> (\<exists>w'. pipeline [lit ''pipeline.py'', [0x1C, 0x33]] empty_world = Raised ValueError w'
        \<and> files w' = Map.empty)"
  using
    pipeline_bad_argument_raises_before_write [of "[lit ''pipeline.py'']" empty_world]
    pipeline_bad_argument_raises_before_write [of "[lit ''pipeline.py'', lit ''twelve'']" empty_world]
    pipeline_bad_argument_raises_before_write [of "[lit ''pipeline.py'', [0x1C, 0x33]]" empty_world]
  by (simp add: py_int_twelve py_int_separator empty_world_takes empty_world_fields)

text \<open>
  C10. For an argument that parses to an integer \<open>m\<close> below 1 or above 12, nothing in the
  script objects: if the standard output takes what the run prints and the output
  path can be written, the run ends normally, the filtered table it printed last is
  empty, and the file named after \<open>m\<close> holds the whole table of 12 rows.
\<close>

theorem pipeline_out_of_range_month:
  assumes "py_int s = Inr m" and "m < 1 \<or> 12 < m"
    and "stdout_takes w (pipeline_prints (prog # s # rest) m)"
    and "writable w (output_path m)"
  shows "\<exists>w'. pipeline (prog # s # rest) w = Exit0 w'
           \<and> df_month m = []
           \<and> last (stdout w') = [PFrame []]
           \<and> files w' = (files w)(output_path m \<mapsto> df)
           \<and> length df = 12"
  using assms
  by (simp add: pipeline_parsed to_parquet_def df_month_out_of_range length_df
      pipeline_prints_def)

theorem pipeline_out_of_range_month_witness:
  "py_int (lit ''13'') = Inr 13
   \<and> stdout_takes empty_world (pipeline_prints [lit ''pipeline.py'', lit ''13''] 13)
   \<and> (\<exists>w'. pipeline [lit ''pipeline.py'', lit ''13''] empty_world = Exit0 w'
         \<and> df_month 13 = []
         \<and> last (stdout w') = [PFrame []]
         \<and> files w' ''01-docker-terraform/docker-sql/pipeline/output_13.parquet'' = Some df)"
  using pipeline_out_of_range_month [of "lit ''13''" 13 empty_world "lit ''pipeline.py''" "[]"]
  by (auto simp: py_int_13 output_path_13 empty_world_takes empty_world_fields)

section \<open>Properties of the SQL operators\<close>

lemma desc_before_total: "desc_before a b \<or> desc_before b a"
  by (cases a; cases b) auto

lemma desc_before_trans: "desc_before a b \<Longrightarrow> desc_before b c \<Longrightarrow> desc_before a c"
  by (cases a; cases b; cases c) auto

lemma set_insert_desc: "set (insert_desc key r xs) = insert r (set xs)"
  by (induction xs) auto

lemma length_insert_desc: "length (insert_desc key r xs) = Suc (length xs)"
  by (induction xs) auto

lemma sorted_insert_desc:
  assumes "sorted_wrt (\<lambda>a b. desc_before (key a) (key b)) xs"
  shows "sorted_wrt (\<lambda>a b. desc_before (key a) (key b)) (insert_desc key r xs)"
  using assms
proof (induction xs)
  case Nil
  then show ?case by simp
next
  case (Cons x xs)
  show ?case
  proof (cases "desc_before (key r) (key x)")
    case True
    with Cons.prems show ?thesis
      by (auto intro: desc_before_trans)
  next
    case False
    then have "desc_before (key x) (key r)"
      using desc_before_total by blast
    with False Cons show ?thesis
      by (auto simp: set_insert_desc)
  qed
qed

lemma set_order_by_desc: "set (order_by_desc key rows) = set rows"
  by (induction rows) (auto simp: order_by_desc_def set_insert_desc)

lemma length_order_by_desc: "length (order_by_desc key rows) = length rows"
  by (induction rows) (auto simp: order_by_desc_def length_insert_desc)

lemma sorted_order_by_desc:
  "sorted_wrt (\<lambda>a b. desc_before (key a) (key b)) (order_by_desc key rows)"
proof (induction rows)
  case Nil
  then show ?case by (simp add: order_by_desc_def)
next
  case (Cons r rows)
  then show ?case
    using sorted_insert_desc [of key "order_by_desc key rows" r]
    by (simp add: order_by_desc_def)
qed

lemma length_limit: "length (limit n rows) \<le> n"
  by (simp add: limit_def)

lemma sorted_limit: "sorted_wrt P rows \<Longrightarrow> sorted_wrt P (limit n rows)"
  by (simp add: limit_def sorted_wrt_take)

lemma set_limit: "set (limit n rows) \<subseteq> set rows"
  by (simp add: limit_def set_take_subset)

text \<open>The first row under \<^verbatim>\<open>ORDER BY ... DESC LIMIT 1\<close> may stand before every row.\<close>

lemma limit_1_order_by_desc:
  assumes "rows \<noteq> []"
  shows "\<exists>r. limit 1 (order_by_desc key rows) = [r] \<and> r \<in> set rows
            \<and> (\<forall>x \<in> set rows. desc_before (key r) (key x))"
proof -
  obtain r rs where rs: "order_by_desc key rows = r # rs"
    using assms length_order_by_desc [of key rows] by (cases "order_by_desc key rows") auto
  have "sorted_wrt (\<lambda>a b. desc_before (key a) (key b)) (r # rs)"
    using sorted_order_by_desc [of key rows] rs by simp
  then have "\<forall>x \<in> set (r # rs). desc_before (key r) (key x)"
    using desc_before_total [of "key r" "key r"] by auto
  moreover have "set (r # rs) = set rows"
    using set_order_by_desc [of key rows] rs by simp
  ultimately show ?thesis
    using rs by (auto simp: limit_def)
qed

lemma set_group_by:
  "set (group_by key rows) = (\<lambda>k. (k, filter (\<lambda>r. key r = k) rows)) ` key ` set rows"
  by (simp add: group_by_def)

lemma in_limit_order_by_desc:
  "x \<in> set (limit n (order_by_desc key rows)) \<Longrightarrow> x \<in> set rows"
  using set_limit [of n "order_by_desc key rows"] by (auto simp: set_order_by_desc)

lemma non_null_Nil_iff: "non_null vs = [] \<longleftrightarrow> (\<forall>v \<in> set vs. v = None)"
  by (induction vs) (auto simp: non_null_def List.map_filter_simps split: option.splits)

lemma sql_max_Some:
  assumes "non_null vs \<noteq> []"
  shows "sql_max vs = Some (Max (set (non_null vs)))"
proof -
  obtain x xs where eq: "non_null vs = x # xs"
    using assms by (cases "non_null vs") auto
  have "sql_max vs = Some (fold max xs x)"
    by (simp add: sql_max_def eq)
  also have "fold max xs x = Max (set (x # xs))"
    by (rule Max.set_eq_fold [symmetric])
  finally show ?thesis
    by (simp only: eq)
qed

section \<open>Properties of the four statements\<close>

subsection \<open>The second statement\<close>

lemma q4_where_iff: "q4_where g = Some True \<longleftrightarrow> not_100_or_more g"
  by (auto simp: q4_where_def not_100_or_more_def sql_cmp_def sql_not_def split: option.splits)

lemma not_100_or_more_iff:
  "not_100_or_more g \<longleftrightarrow> (\<exists>d. trip_distance g = Some d \<and> d < 100)"
  by (cases "trip_distance g") (simp_all add: not_100_or_more_def sql_cmp_def sql_not_def not_le)

lemma sql_where_q4: "sql_where q4_where g = filter not_100_or_more g"
  by (simp add: sql_where_def q4_where_iff)

lemma group_max:
  assumes "t \<in> set T" and "\<forall>r \<in> set T. trip_distance r \<noteq> None"
  shows "sql_max (map trip_distance (filter (\<lambda>r. pickup_date r = pickup_date t) T))
         = Some (day_maximum T (pickup_date t))"
proof -
  let ?vs = "map trip_distance (filter (\<lambda>r. pickup_date r = pickup_date t) T)"
  from assms(1) have "t \<in> set (filter (\<lambda>r. pickup_date r = pickup_date t) T)"
    by simp
  then have member: "trip_distance t \<in> set ?vs"
    unfolding set_map by (rule imageI)
  from assms(2) assms(1) have known: "trip_distance t \<noteq> None"
    by (rule bspec)
  have "non_null ?vs \<noteq> []"
  proof
    assume "non_null ?vs = []"
    then have "\<forall>v \<in> set ?vs. v = None"
      by (simp only: non_null_Nil_iff)
    then have "trip_distance t = None"
      using member by (rule bspec)
    with known show False
      by (rule notE)
  qed
  then have "sql_max ?vs = Some (Max (set (non_null ?vs)))"
    by (rule sql_max_Some)
  then show ?thesis
    by (simp only: day_maximum_def)
qed

lemma aggregated_groups:
  assumes "\<forall>r \<in> set T. trip_distance r \<noteq> None"
  shows "map (\<lambda>(day, rows). (day, sql_max (map trip_distance rows))) (group_by pickup_date T)
         = map (\<lambda>day. (day, Some (day_maximum T day))) (remdups (map pickup_date T))"
proof -
  have "map (\<lambda>(day, rows). (day, sql_max (map trip_distance rows))) (group_by pickup_date T)
        = map (\<lambda>day. (day, sql_max (map trip_distance (filter (\<lambda>r. pickup_date r = day) T))))
            (remdups (map pickup_date T))"
    by (simp add: group_by_def comp_def)
  also have "\<dots> = map (\<lambda>day. (day, Some (day_maximum T day))) (remdups (map pickup_date T))"
  proof (rule map_cong [OF refl])
    fix day
    assume "day \<in> set (remdups (map pickup_date T))"
    then obtain t where t: "t \<in> set T" "day = pickup_date t"
      by auto
    from group_max [OF t(1) assms] t(2)
    show "(day, sql_max (map trip_distance (filter (\<lambda>r. pickup_date r = day) T)))
        = (day, Some (day_maximum T day))"
      by (simp only:)
  qed
  finally show ?thesis .
qed

lemma q4_unfolded:
  "q4 g = limit 1 (order_by_desc snd
            (map (\<lambda>(day, rows). (day, sql_max (map trip_distance rows)))
               (group_by pickup_date (filter not_100_or_more g))))"
  unfolding q4_def sql_where_q4 pickup_date_def [symmetric] ..

text \<open>
  C9. Take the trips whose distance is not 100 or more. If there is none, the second
  statement returns no row. Otherwise it returns exactly one row: a pickup day of one of
  those trips, with the largest distance among those trips of that day, and no day has a
  larger maximum. (Which day is returned when several share the largest maximum is left
  open by SQL, and by this theorem.)
\<close>

theorem q4_day_of_longest_trip:
  "(let trips = filter not_100_or_more g in
      if trips = [] then q4 g = []
      else \<exists>day \<in> pickup_date ` set trips.
             q4 g = [(day, Some (day_maximum trips day))]
             \<and> (\<forall>day' \<in> pickup_date ` set trips. day_maximum trips day' \<le> day_maximum trips day))"
proof -
  define T where "T = filter not_100_or_more g"
  define A where "A = map (\<lambda>day. (day, Some (day_maximum T day))) (remdups (map pickup_date T))"
  have known: "\<forall>r \<in> set T. trip_distance r \<noteq> None"
    by (auto simp: T_def not_100_or_more_iff)
  have q4: "q4 g = limit 1 (order_by_desc snd A)"
    unfolding q4_unfolded A_def T_def [symmetric] by (simp only: aggregated_groups [OF known])
  have set_A: "set A = (\<lambda>day. (day, Some (day_maximum T day))) ` pickup_date ` set T"
    by (simp add: A_def)
  have "if T = [] then q4 g = []
      else \<exists>day \<in> pickup_date ` set T.
             q4 g = [(day, Some (day_maximum T day))]
             \<and> (\<forall>day' \<in> pickup_date ` set T. day_maximum T day' \<le> day_maximum T day)"
  proof (cases "T = []")
    case True
    then have "A = []"
      by (simp add: A_def)
    with True q4 show ?thesis
      by (simp add: order_by_desc_def limit_def)
  next
    case False
    then have "A \<noteq> []"
      by (simp add: A_def)
    then obtain r where r: "limit 1 (order_by_desc snd A) = [r]" "r \<in> set A"
      "\<forall>x \<in> set A. desc_before (snd r) (snd x)"
      using limit_1_order_by_desc [of A snd] by blast
    from r(2) obtain day where day: "day \<in> pickup_date ` set T"
      "r = (day, Some (day_maximum T day))"
      unfolding set_A by blast
    have top: "\<forall>day' \<in> pickup_date ` set T. day_maximum T day' \<le> day_maximum T day"
    proof
      fix day'
      assume "day' \<in> pickup_date ` set T"
      then have "(day', Some (day_maximum T day')) \<in> set A"
        unfolding set_A by (rule imageI)
      with r(3) have "desc_before (snd r) (snd (day', Some (day_maximum T day')))"
        by (rule bspec)
      then show "day_maximum T day' \<le> day_maximum T day"
        by (simp add: day(2))
    qed
    have row: "q4 g = [(day, Some (day_maximum T day))]"
      by (simp only: q4 r(1) day(2))
    from row top have "q4 g = [(day, Some (day_maximum T day))]
        \<and> (\<forall>day' \<in> pickup_date ` set T. day_maximum T day' \<le> day_maximum T day)"
      by (rule conjI)
    with day(1) have "\<exists>day \<in> pickup_date ` set T.
             q4 g = [(day, Some (day_maximum T day))]
             \<and> (\<forall>day' \<in> pickup_date ` set T. day_maximum T day' \<le> day_maximum T day)"
      by (rule bexI [rotated])
    with False show ?thesis
      by (simp only: if_False)
  qed
  then show ?thesis
    unfolding T_def Let_def .
qed


theorem q4_day_of_longest_trip_witness:
  "filter not_100_or_more [trip1, trip2, trip3, trip4] = [trip1, trip3]
   \<and> q4 [trip1, trip2, trip3, trip4] = [(Some (2025, 11, 19), Some 12)]
   \<and> day_maximum [trip1, trip3] (Some (2025, 11, 19)) = 12
   \<and> day_maximum [trip1, trip3] (Some (2025, 11, 18)) \<le> 12"
proof -
  have trips: "filter not_100_or_more [trip1, trip2, trip3, trip4] = [trip1, trip3]"
    by code_simp
  have row: "q4 [trip1, trip2, trip3, trip4] = [(Some (2025, 11, 19), Some 12)]"
    by code_simp
  have day: "Some (2025, 11, 18) \<in> pickup_date ` set [trip1, trip3]"
    by code_simp
  from q4_day_of_longest_trip [of "[trip1, trip2, trip3, trip4]"]
  obtain d where d: "q4 [trip1, trip2, trip3, trip4] = [(d, Some (day_maximum [trip1, trip3] d))]"
    and top: "\<forall>day' \<in> pickup_date ` set [trip1, trip3].
      day_maximum [trip1, trip3] day' \<le> day_maximum [trip1, trip3] d"
    unfolding Let_def trips by fastforce
  from d row have "d = Some (2025, 11, 19)" and m: "day_maximum [trip1, trip3] d = 12"
    by simp_all
  with top day m show ?thesis
    using trips row by fastforce
qed

subsection \<open>The first statement\<close>

lemma q3_where_iff: "q3_where g = Some True \<longleftrightarrow> short_november_trip g"
  by (cases "lpep_pickup_datetime g"; cases "trip_distance g")
    (auto simp: q3_where_def short_november_trip_def sql_and_def sql_cmp_def)

lemma q3_counts: "q3 g = [int (length (filter short_november_trip g))]"
  by (simp add: q3_def count_star_def sql_where_def q3_where_iff)

text \<open>
  C8. When the server is reachable and the table of trips holds no trip that was picked
  up in November 2025 with a distance of at most 1, the first statement returns exactly
  one row, and the count in it is 0.
\<close>

theorem q3_zero_count_row:
  assumes "reachable eng"
    and "tables eng ''green_taxi_data'' = Some (Trips g)"
    and "list_all (\<lambda>t. \<not> short_november_trip t) g"
  shows "read_sql Q3 eng = Inr (CountRows [0])"
proof -
  from assms(3) have "filter short_november_trip g = []"
    by (simp add: filter_empty_conv list_all_iff)
  then have "q3 g = [0]"
    by (simp add: q3_counts)
  with assms(1,2) show ?thesis
    by (simp add: read_sql_def trips_of_def)
qed

theorem q3_zero_count_row_witness:
  "list_all (\<lambda>t. \<not> short_november_trip t) [trip2, trip3, trip4]
   \<and> read_sql Q3 \<lparr>reachable = True, tables = [''green_taxi_data'' \<mapsto> Trips [trip2, trip3, trip4]]\<rparr>
       = Inr (CountRows [0])"
proof -
  have none: "list_all (\<lambda>t. \<not> short_november_trip t) [trip2, trip3, trip4]"
    by code_simp
  from q3_zero_count_row [of "\<lparr>reachable = True, tables = [''green_taxi_data'' \<mapsto> Trips [trip2, trip3, trip4]]\<rparr>"
      "[trip2, trip3, trip4]"] none
  show ?thesis
    by simp
qed


subsection \<open>The third and the fourth statement\<close>

lemma q5_aggregate:
  assumes "(k, v) \<in> set (q5 g z)"
  shows "v = sql_sum (map (\<lambda>(g, z). total_amount g) (filter (\<lambda>(g, z). Zone z = k) (q5_rows g z)))"
proof -
  from assms have "(k, v) \<in> set (map (\<lambda>(zone_name, rows). (zone_name, sql_sum (map (\<lambda>(g, z). total_amount g) rows)))
             (group_by (\<lambda>(g, z). Zone z) (q5_rows g z)))"
    unfolding q5_def by (rule in_limit_order_by_desc)
  then show ?thesis
    by (auto simp: set_group_by case_prod_unfold)
qed

lemma q6_aggregate:
  assumes "(k, v) \<in> set (q6 g z)"
  shows "v = sql_max (map (\<lambda>((g, pu_zone), do_zone). tip_amount g)
               (filter (\<lambda>((g, pu_zone), do_zone). Zone do_zone = k) (q6_rows g z)))"
proof -
  from assms have "(k, v) \<in> set (map (\<lambda>(dropoff_zone, rows).
                  (dropoff_zone, sql_max (map (\<lambda>((g, pu_zone), do_zone). tip_amount g) rows)))
             (group_by (\<lambda>((g, pu_zone), do_zone). Zone do_zone) (q6_rows g z)))"
    unfolding q6_def by (rule in_limit_order_by_desc)
  then show ?thesis
    by (auto simp: set_group_by case_prod_unfold)
qed

lemma q5_top5: "length (q5 g z) \<le> 5 \<and> sorted_wrt (\<lambda>a b. desc_before (snd a) (snd b)) (q5 g z)"
  by (simp add: q5_def length_limit sorted_limit sorted_order_by_desc)

lemma q6_top5: "length (q6 g z) \<le> 5 \<and> sorted_wrt (\<lambda>a b. desc_before (snd a) (snd b)) (q6 g z)"
  by (simp add: q6_def length_limit sorted_limit sorted_order_by_desc)

lemma read_sql_Q5:
  assumes "reachable eng"
    and "tables eng ''green_taxi_data'' = Some (Trips g)"
    and "tables eng ''zones'' = Some (Zones z)"
  shows "read_sql Q5 eng = Inr (ZoneRows (q5 g z))"
  using assms by (simp add: read_sql_def trips_of_def zones_of_def)

lemma read_sql_Q6:
  assumes "reachable eng"
    and "tables eng ''green_taxi_data'' = Some (Trips g)"
    and "tables eng ''zones'' = Some (Zones z)"
  shows "read_sql Q6 eng = Inr (ZoneRows (q6 g z))"
  using assms by (simp add: read_sql_def trips_of_def zones_of_def)

text \<open>
  C7. When the server is reachable and holds both tables, the third and the fourth
  statement each return at most 5 rows, and the rows stand in the descending order of
  their second column, which is the aggregate of the row's group: the sum of
  \<open>total_amount\<close> for the third statement, the maximum of \<open>tip_amount\<close> for the fourth.
  The order is PostgreSQL's \<^verbatim>\<open>DESC\<close>: a NULL aggregate counts as larger than every
  number and comes first.
\<close>

theorem q5_q6_at_most_five_descending:
  assumes "reachable eng"
    and "tables eng ''green_taxi_data'' = Some (Trips g)"
    and "tables eng ''zones'' = Some (Zones z)"
  shows "\<exists>r5 r6. read_sql Q5 eng = Inr (ZoneRows r5) \<and> read_sql Q6 eng = Inr (ZoneRows r6)
           \<and> length r5 \<le> 5 \<and> length r6 \<le> 5
           \<and> sorted_wrt (\<lambda>a b. desc_before (snd a) (snd b)) r5
           \<and> sorted_wrt (\<lambda>a b. desc_before (snd a) (snd b)) r6
           \<and> (\<forall>(k, v) \<in> set r5.
                 v = sql_sum (map (\<lambda>(g, z). total_amount g)
                        (filter (\<lambda>(g, z). Zone z = k) (q5_rows g z))))
           \<and> (\<forall>(k, v) \<in> set r6.
                 v = sql_max (map (\<lambda>((g, pu_zone), do_zone). tip_amount g)
                        (filter (\<lambda>((g, pu_zone), do_zone). Zone do_zone = k) (q6_rows g z))))"
proof (intro exI conjI)
  show "read_sql Q5 eng = Inr (ZoneRows (q5 g z))"
    using assms by (rule read_sql_Q5)
  show "read_sql Q6 eng = Inr (ZoneRows (q6 g z))"
    using assms by (rule read_sql_Q6)
  show "length (q5 g z) \<le> 5" and "sorted_wrt (\<lambda>a b. desc_before (snd a) (snd b)) (q5 g z)"
    using q5_top5 [of g z] by simp_all
  show "length (q6 g z) \<le> 5" and "sorted_wrt (\<lambda>a b. desc_before (snd a) (snd b)) (q6 g z)"
    using q6_top5 [of g z] by simp_all
  show "\<forall>(k, v) \<in> set (q5 g z).
      v = sql_sum (map (\<lambda>(g, z). total_amount g) (filter (\<lambda>(g, z). Zone z = k) (q5_rows g z)))"
    using q5_aggregate by blast
  show "\<forall>(k, v) \<in> set (q6 g z).
      v = sql_max (map (\<lambda>((g, pu_zone), do_zone). tip_amount g)
            (filter (\<lambda>((g, pu_zone), do_zone). Zone do_zone = k) (q6_rows g z)))"
    using q6_aggregate by blast
qed

theorem q5_q6_at_most_five_descending_witness:
  "reachable example_engine
   \<and> read_sql Q5 example_engine = Inr (ZoneRows [(Some ''East Harlem North'', Some (35 / 2))])
   \<and> read_sql Q6 example_engine =
       Inr (ZoneRows [(None, None), (Some ''East Harlem South'', Some 2)])
   \<and> sorted_wrt (\<lambda>a b. desc_before (snd a) (snd b))
       [(None :: string option, None :: real option), (Some ''East Harlem South'', Some 2)]"
proof -
  have r: "reachable example_engine"
    by (simp add: example_engine_def)
  have g: "tables example_engine ''green_taxi_data'' = Some (Trips [trip1, trip2, trip3, trip4])"
    by (simp add: example_engine_def)
  have z: "tables example_engine ''zones'' = Some (Zones example_zones)"
    by (simp add: example_engine_def)
  have q5: "q5 [trip1, trip2, trip3, trip4] example_zones = [(Some ''East Harlem North'', Some (35 / 2))]"
    by code_simp
  have q6: "q6 [trip1, trip2, trip3, trip4] example_zones =
      [(None, None), (Some ''East Harlem South'', Some 2)]"
    by code_simp
  from q5_q6_at_most_five_descending [OF r g z]
  obtain r5 r6 where "read_sql Q5 example_engine = Inr (ZoneRows r5)"
    and "read_sql Q6 example_engine = Inr (ZoneRows r6)"
    and "sorted_wrt (\<lambda>a b. desc_before (snd a) (snd b)) r6"
    by blast
  moreover have "read_sql Q5 example_engine = Inr (ZoneRows (q5 [trip1, trip2, trip3, trip4] example_zones))"
    using r g z by (rule read_sql_Q5)
  moreover have "read_sql Q6 example_engine = Inr (ZoneRows (q6 [trip1, trip2, trip3, trip4] example_zones))"
    using r g z by (rule read_sql_Q6)
  ultimately show ?thesis
    using r by (simp add: q5 q6)
qed


section \<open>Properties of the ingestion script\<close>

subsection \<open>Printing\<close>

lemma hw_prints_ok:
  assumes "list_all (\<lambda>x. console_error w x = None) xs"
  shows "hw_prints xs w = Exit0 (w\<lparr>console := console w @ xs\<rparr>)"
  using assms
proof (induction xs arbitrary: w)
  case Nil
  show ?case by simp
next
  case (Cons x xs)
  from Cons.prems have x: "console_error w x = None"
    and xs: "list_all (\<lambda>y. console_error (w\<lparr>console := console w @ [x]\<rparr>) y = None) xs"
    by simp_all
  from x have "hw_prints (x # xs) w = hw_prints xs (w\<lparr>console := console w @ [x]\<rparr>)"
    by (simp add: hw_print_def)
  also have "\<dots> = Exit0 (w\<lparr>console := console w @ [x], console := (console w @ [x]) @ xs\<rparr>)"
    using Cons.IH [OF xs] by simp
  finally show ?case
    by simp
qed

lemma hw_prints_Exit0D:
  assumes "hw_prints xs w = Exit0 w'"
  shows "w' = w\<lparr>console := console w @ xs\<rparr> \<and> list_all (\<lambda>x. console_error w x = None) xs"
  using assms
proof (induction xs arbitrary: w)
  case Nil
  then show ?case by simp
next
  case (Cons x xs)
  show ?case
  proof (cases "console_error w x")
    case (Some e)
    with Cons.prems show ?thesis
      by (simp add: hw_print_def)
  next
    case None
    with Cons.prems have "hw_prints xs (w\<lparr>console := console w @ [x]\<rparr>) = Exit0 w'"
      by (simp add: hw_print_def)
    from Cons.IH [OF this] None show ?thesis
      by simp
  qed
qed

lemma hw_prints_error:
  assumes "console_error w x = Some e"
  shows "hw_prints (x # xs) w = Raised e w"
  using assms by (simp add: hw_print_def)

subsection \<open>Runs\<close>

lemma read_parquet_console: "read_parquet path (w\<lparr>console := c\<rparr>) = read_parquet path w"
  by (simp add: read_parquet_def)

lemma read_csv_console: "read_csv path (w\<lparr>console := c\<rparr>) = read_csv path w"
  by (simp add: read_csv_def)

lemma read_csv_db_update: "read_csv path (w\<lparr>db := e\<rparr>) = read_csv path w"
  by (simp add: read_csv_def)

lemma console_takes_append:
  "console_takes w (xs @ ys) \<longleftrightarrow> console_takes w xs \<and> console_takes w ys"
  by (simp add: console_takes_def)

lemmas ingest_run =
  ingest_main_def hw_prints_ok console_takes_def ingest_prints_trips_def ingest_prints_zones_def
  read_parquet_console read_csv_console read_csv_db_update to_sql_def

lemma ingest_main_success:
  assumes "read_parquet ''green_tripdata_2025-11.parquet'' w = Inr g"
    and "read_csv ''taxi_zone_lookup.csv'' w = Inr z"
    and "reachable (db w)"
    and "console_takes w (ingest_prints_trips g @ ingest_prints_zones z)"
  shows "ingest_main w =
     Exit0 (w\<lparr>console := console w @ ingest_prints_trips g @ ingest_prints_zones z,
              db := (db w)\<lparr>tables := (tables (db w))(''green_taxi_data'' \<mapsto> g, ''zones'' \<mapsto> z)\<rparr>\<rparr>)"
  using assms by (simp add: ingest_run del: hw_prints.simps)

lemma ingest_main_zone_failure:
  assumes "read_parquet ''green_tripdata_2025-11.parquet'' w = Inr g"
    and "read_csv ''taxi_zone_lookup.csv'' w = Inl e"
    and "reachable (db w)"
    and "console_takes w (ingest_prints_trips g)"
  shows "ingest_main w =
     Raised e (w\<lparr>console := console w @ ingest_prints_trips g,
                 db := (db w)\<lparr>tables := (tables (db w))(''green_taxi_data'' \<mapsto> g)\<rparr>\<rparr>)"
  using assms by (simp add: ingest_run del: hw_prints.simps)

text \<open>
  On a console that cannot encode the check mark (ASCII, Latin-1, cp1252) the run ends at
  its fourth message, in \<^verbatim>\<open>UnicodeEncodeError\<close>, before anything is sent to the database.
\<close>

lemma ingest_main_check_mark_not_encoded:
  assumes "read_parquet ''green_tripdata_2025-11.parquet'' w = Inr g"
    and "console_takes w
           [rule60, HStr (lit ''Loading Green Taxi data from parquet file...''), rule60]"
    and "console_error w
           (HTimed (check_mark # lit '' Loaded '') (len g) (lit '' rows in '') (lit '' seconds'')) =
         Some UnicodeEncodeError"
  shows "\<exists>w'. ingest_main w = Raised UnicodeEncodeError w' \<and> db w' = db w"
  using assms
  by (simp add: ingest_main_def hw_prints_ok hw_prints_error console_takes_def
      read_parquet_console del: hw_prints.simps)

lemma read_parquet_file:
  "disk w path = Some (ParquetFile d) \<Longrightarrow> read_parquet path w = Inr d"
  by (simp add: read_parquet_def)

lemma read_csv_file:
  "disk w path = Some (CsvFile d) \<Longrightarrow> read_csv path w = Inr d"
  by (simp add: read_csv_def)

lemma read_csv_missing:
  "disk w path = None \<Longrightarrow> read_csv path w = Inl FileNotFoundError"
  by (simp add: read_csv_def)

lemma stale_world_takes: "console_takes stale_world xs"
  by (simp add: console_takes_def stale_world_def example_world_def list_all_iff)

lemma stale_world_without_zone_file_takes: "console_takes stale_world_without_zone_file xs"
  by (simp add: console_takes_def stale_world_without_zone_file_def stale_world_def
      example_world_def list_all_iff)

text \<open>
  C5. With both source files in place, the server reachable and a console that takes the
  messages of the script, the script run twice in a row succeeds both times, and
  afterwards each of the two tables holds exactly the rows of its file, whatever the
  database held before: the row counts are those of the files, and the second run leaves
  the database as the first one left it.
\<close>

theorem ingest_twice_replaces:
  assumes "disk w ''green_tripdata_2025-11.parquet'' = Some (ParquetFile g)"
    and "disk w ''taxi_zone_lookup.csv'' = Some (CsvFile z)"
    and "reachable (db w)"
    and "console_takes w (ingest_prints_trips g @ ingest_prints_zones z)"
  shows "\<exists>w1 w2. ingest_main w = Exit0 w1 \<and> ingest_main w1 = Exit0 w2
           \<and> tables (db w2) ''green_taxi_data'' = Some g
           \<and> tables (db w2) ''zones'' = Some z
           \<and> map_option len (tables (db w2) ''green_taxi_data'') = Some (len g)
           \<and> map_option len (tables (db w2) ''zones'') = Some (len z)
           \<and> db w2 = db w1"
proof -
  define w1 where "w1 =
    w\<lparr>console := console w @ ingest_prints_trips g @ ingest_prints_zones z,
      db := (db w)\<lparr>tables := (tables (db w))(''green_taxi_data'' \<mapsto> g, ''zones'' \<mapsto> z)\<rparr>\<rparr>"
  define w2 where "w2 =
    w1\<lparr>console := console w1 @ ingest_prints_trips g @ ingest_prints_zones z,
       db := (db w1)\<lparr>tables := (tables (db w1))(''green_taxi_data'' \<mapsto> g, ''zones'' \<mapsto> z)\<rparr>\<rparr>"
  have run1: "ingest_main w = Exit0 w1"
    unfolding w1_def
    using read_parquet_file [OF assms(1)] read_csv_file [OF assms(2)] assms(3,4)
    by (rule ingest_main_success)
  have "disk w1 ''green_tripdata_2025-11.parquet'' = Some (ParquetFile g)"
    and "disk w1 ''taxi_zone_lookup.csv'' = Some (CsvFile z)"
    and reach1: "reachable (db w1)"
    and takes1: "console_takes w1 (ingest_prints_trips g @ ingest_prints_zones z)"
    using assms by (simp_all add: w1_def console_takes_def)
  then have run2: "ingest_main w1 = Exit0 w2"
    unfolding w2_def
    using read_parquet_file read_csv_file by (intro ingest_main_success) simp_all
  have same: "db w2 = db w1"
    by (simp add: w2_def w1_def)
  have "tables (db w2) ''green_taxi_data'' = Some g" and "tables (db w2) ''zones'' = Some z"
    by (simp_all add: w2_def)
  with run1 run2 same show ?thesis
    by simp
qed

theorem ingest_twice_replaces_witness:
  "tables (db stale_world) ''green_taxi_data'' = Some (Trips [trip4, trip4])
   \<and> tables (db stale_world) ''zones'' = None
   \<and> console_takes stale_world
       (ingest_prints_trips (Trips [trip1, trip2, trip3, trip4]) @
        ingest_prints_zones (Zones example_zones))
   \<and> (\<exists>w1 w2. ingest_main stale_world = Exit0 w1 \<and> ingest_main w1 = Exit0 w2
         \<and> tables (db w2) ''green_taxi_data'' = Some (Trips [trip1, trip2, trip3, trip4])
         \<and> tables (db w2) ''zones'' = Some (Zones example_zones)
         \<and> map_option len (tables (db w2) ''green_taxi_data'') = Some 4
         \<and> map_option len (tables (db w2) ''zones'') = Some 3)"
proof -
  have files: "disk stale_world ''green_tripdata_2025-11.parquet'' =
      Some (ParquetFile (Trips [trip1, trip2, trip3, trip4]))"
    "disk stale_world ''taxi_zone_lookup.csv'' = Some (CsvFile (Zones example_zones))"
    "reachable (db stale_world)"
    by (simp_all add: stale_world_def example_world_def)
  have before: "tables (db stale_world) ''green_taxi_data'' = Some (Trips [trip4, trip4])"
    "tables (db stale_world) ''zones'' = None"
    by (simp_all add: stale_world_def)
  have lens: "len (Trips [trip1, trip2, trip3, trip4]) = 4" "len (Zones example_zones) = 3"
    by (simp_all add: example_zones_def)
  from ingest_twice_replaces [OF files stale_world_takes] before stale_world_takes
  show ?thesis
    unfolding lens by blast
qed

text \<open>
  C6. When the trip file has been read and loaded and reading the zone file then fails
  (it is missing, or is no CSV file), on a console that takes the messages printed until
  then, the run ends in that exception with the table of trips already replaced by
  the new rows and the table of zones as it was before: the first load is not undone.
\<close>

theorem ingest_not_atomic:
  assumes "disk w ''green_tripdata_2025-11.parquet'' = Some (ParquetFile g)"
    and "read_csv ''taxi_zone_lookup.csv'' w = Inl e"
    and "reachable (db w)"
    and "console_takes w (ingest_prints_trips g)"
  shows "\<exists>w'. ingest_main w = Raised e w'
           \<and> tables (db w') ''green_taxi_data'' = Some g
           \<and> tables (db w') ''zones'' = tables (db w) ''zones''"
proof -
  define w' where "w' =
    w\<lparr>console := console w @ ingest_prints_trips g,
      db := (db w)\<lparr>tables := (tables (db w))(''green_taxi_data'' \<mapsto> g)\<rparr>\<rparr>"
  have "ingest_main w = Raised e w'"
    unfolding w'_def
    using read_parquet_file [OF assms(1)] assms(2,3,4) by (rule ingest_main_zone_failure)
  moreover have "tables (db w') ''green_taxi_data'' = Some g"
    and "tables (db w') ''zones'' = tables (db w) ''zones''"
    by (simp_all add: w'_def)
  ultimately show ?thesis
    by simp
qed

theorem ingest_not_atomic_witness:
  "read_csv ''taxi_zone_lookup.csv'' stale_world_without_zone_file = Inl FileNotFoundError
   \<and> console_takes stale_world_without_zone_file
       (ingest_prints_trips (Trips [trip1, trip2, trip3, trip4]))
   \<and> tables (db stale_world_without_zone_file) ''green_taxi_data'' = Some (Trips [trip4, trip4])
   \<and> (\<exists>w'. ingest_main stale_world_without_zone_file = Raised FileNotFoundError w'
         \<and> tables (db w') ''green_taxi_data'' = Some (Trips [trip1, trip2, trip3, trip4])
         \<and> tables (db w') ''zones'' = None)"
proof -
  have parquet: "disk stale_world_without_zone_file ''green_tripdata_2025-11.parquet'' =
      Some (ParquetFile (Trips [trip1, trip2, trip3, trip4]))"
    by (simp add: stale_world_without_zone_file_def)
  have csv: "read_csv ''taxi_zone_lookup.csv'' stale_world_without_zone_file = Inl FileNotFoundError"
    by (simp add: stale_world_without_zone_file_def read_csv_def)
  have reach: "reachable (db stale_world_without_zone_file)"
    by (simp add: stale_world_without_zone_file_def stale_world_def)
  have before: "tables (db stale_world_without_zone_file) ''green_taxi_data'' = Some (Trips [trip4, trip4])"
    "tables (db stale_world_without_zone_file) ''zones'' = None"
    by (simp_all add: stale_world_without_zone_file_def stale_world_def)
  from ingest_not_atomic [OF parquet csv reach stale_world_without_zone_file_takes]
    csv before stale_world_without_zone_file_takes
  show ?thesis
    by simp
qed

section \<open>Properties of the query script\<close>

lemma and_then_Exit0D:
  assumes "and_then m f = Exit0 w'"
  shows "\<exists>w1. m = Exit0 w1 \<and> f w1 = Exit0 w'"
  using assms by (cases m) simp_all

lemma run_query_ok:
  assumes "read_sql q (db w) = Inr res"
    and "\<forall>x. console_error w x = None"
  shows "\<exists>w'. run_query n d q w = Exit0 w' \<and> db w' = db w \<and> disk w' = disk w
           \<and> console_error w' = console_error w
           \<and> executed w' = executed w @ [q]
           \<and> filter shows_statement_or_result (console w') =
               filter shows_statement_or_result (console w) @ [HSql q, HResult res]"
  using assms
  by (simp add: run_query_def hw_prints_ok list_all_iff del: hw_prints.simps)

lemma run_query_Exit0D:
  assumes "run_query n d q w = Exit0 w'"
  shows "\<exists>res. read_sql q (db w) = Inr res \<and> db w' = db w \<and> disk w' = disk w
           \<and> executed w' = executed w @ [q]
           \<and> filter shows_statement_or_result (console w') =
               filter shows_statement_or_result (console w) @ [HSql q, HResult res]"
proof -
  from assms obtain w1 where
    heading: "hw_prints
        [HStr (lit (CHR 0x0A # replicate 80 CHR ''='')),
         HStr (lit (''Question '' @ str_int (int n) @ '': '' @ d)),
         HStr (lit (replicate 80 CHR ''='')),
         HStr (lit (CHR 0x0A # ''SQL Query:'')),
         HStr (lit (replicate 80 CHR ''-'')),
         HSql q,
         HStr (lit (replicate 80 CHR ''-''))] w = Exit0 w1"
    and rest: "(case read_sql q (db w1) of
          Inl e \<Rightarrow> Raised e w1
        | Inr res \<Rightarrow>
            hw_prints [HStr (lit (CHR 0x0A # ''Result:'')), HResult res, HStr (lit [CHR 0x0A])]
              (w1\<lparr>executed := executed w1 @ [q]\<rparr>)) = Exit0 w'"
    unfolding run_query_def by (blast dest: and_then_Exit0D)
  from hw_prints_Exit0D [OF heading] have w1: "w1 = w\<lparr>console := console w @
        [HStr (lit (CHR 0x0A # replicate 80 CHR ''='')),
         HStr (lit (''Question '' @ str_int (int n) @ '': '' @ d)),
         HStr (lit (replicate 80 CHR ''='')),
         HStr (lit (CHR 0x0A # ''SQL Query:'')),
         HStr (lit (replicate 80 CHR ''-'')),
         HSql q,
         HStr (lit (replicate 80 CHR ''-''))]\<rparr>"
    by (rule conjunct1)
  show ?thesis
  proof (cases "read_sql q (db w1)")
    case (Inl e)
    with rest show ?thesis
      by simp
  next
    case (Inr res)
    with rest have "hw_prints
        [HStr (lit (CHR 0x0A # ''Result:'')), HResult res, HStr (lit [CHR 0x0A])]
        (w1\<lparr>executed := executed w1 @ [q]\<rparr>) = Exit0 w'"
      by simp
    from hw_prints_Exit0D [OF this] have "w' = w1\<lparr>executed := executed w1 @ [q],
        console := console w1 @
          [HStr (lit (CHR 0x0A # ''Result:'')), HResult res, HStr (lit [CHR 0x0A])]\<rparr>"
      by simp
    with Inr show ?thesis
      by (simp add: w1)
  qed
qed

lemma read_sql_Inr_reachable: "read_sql q eng = Inr res \<Longrightarrow> reachable eng"
  by (simp add: read_sql_def split: if_splits)

lemma read_sql_Inr_trips:
  "read_sql q eng = Inr res \<Longrightarrow> \<exists>g. tables eng ''green_taxi_data'' = Some (Trips g)"
  by (simp add: read_sql_def trips_of_def split: if_splits option.splits dataset.splits)

lemma read_sql_Q5_zones:
  "read_sql Q5 eng = Inr res \<Longrightarrow> \<exists>z. tables eng ''zones'' = Some (Zones z)"
  by (simp add: read_sql_def trips_of_def zones_of_def
      split: if_splits option.splits dataset.splits)

lemma read_sql_present:
  assumes "reachable eng"
    and "tables eng ''green_taxi_data'' = Some (Trips g)"
    and "tables eng ''zones'' = Some (Zones z)"
  shows "read_sql Q3 eng = Inr (CountRows (q3 g))"
    and "read_sql Q4 eng = Inr (DayRows (q4 g))"
    and "read_sql Q5 eng = Inr (ZoneRows (q5 g z))"
    and "read_sql Q6 eng = Inr (ZoneRows (q6 g z))"
  using assms by (simp_all add: read_sql_def trips_of_def zones_of_def)


lemma queries_main_success:
  assumes "reachable (db w)"
    and "tables (db w) ''green_taxi_data'' = Some (Trips g)"
    and "tables (db w) ''zones'' = Some (Zones z)"
    and takes: "\<forall>x. console_error w x = None"
  shows "\<exists>w'. queries_main w = Exit0 w' \<and> executed w' = executed w @ [Q3, Q4, Q5, Q6]
           \<and> db w' = db w"
proof -
  note rs = read_sql_present [OF assms(1,2,3)]
  from run_query_ok [OF rs(1) takes]
  obtain w1 where w1: "run_query 3 ''Counting short trips (distance <= 1 mile)'' Q3 w = Exit0 w1"
    "db w1 = db w" "console_error w1 = console_error w" "executed w1 = executed w @ [Q3]"
    by blast
  have r4: "read_sql Q4 (db w1) = Inr (DayRows (q4 g))"
    using rs(2) by (simp only: w1(2))
  have t1: "\<forall>x. console_error w1 x = None"
    using takes by (simp add: w1(3))
  from run_query_ok [OF r4 t1]
  obtain w2 where w2: "run_query 4 ''Day with longest trip distance'' Q4 w1 = Exit0 w2"
    "db w2 = db w1" "console_error w2 = console_error w1" "executed w2 = executed w1 @ [Q4]"
    by blast
  have r5: "read_sql Q5 (db w2) = Inr (ZoneRows (q5 g z))"
    using rs(3) by (simp only: w1(2) w2(2))
  have t2: "\<forall>x. console_error w2 x = None"
    using t1 by (simp add: w2(3))
  from run_query_ok [OF r5 t2]
  obtain w3 where w3:
    "run_query 5 ''Pickup zone with largest total_amount on Nov 18'' Q5 w2 = Exit0 w3"
    "db w3 = db w2" "console_error w3 = console_error w2" "executed w3 = executed w2 @ [Q5]"
    by blast
  have r6: "read_sql Q6 (db w3) = Inr (ZoneRows (q6 g z))"
    using rs(4) by (simp only: w1(2) w2(2) w3(2))
  have t3: "\<forall>x. console_error w3 x = None"
    using t2 by (simp add: w3(3))
  from run_query_ok [OF r6 t3]
  obtain w4 where w4:
    "run_query 6 ''Dropoff zone with largest tip from East Harlem North'' Q6 w3 = Exit0 w4"
    "db w4 = db w3" "executed w4 = executed w3 @ [Q6]"
    by blast
  have "queries_main w = Exit0 w4"
    by (simp add: queries_main_def w1(1) w2(1) w3(1) w4(1))
  moreover have "executed w4 = executed w @ [Q3, Q4, Q5, Q6]"
    by (simp add: w1(4) w2(4) w3(4) w4(3))
  moreover have "db w4 = db w"
    by (simp only: w1(2) w2(2) w3(2) w4(2))
  ultimately show ?thesis
    by blast
qed

lemma example_world_db:
  "reachable (db example_world)"
  "tables (db example_world) ''green_taxi_data'' = Some (Trips [trip1, trip2, trip3, trip4])"
  "tables (db example_world) ''zones'' = Some (Zones example_zones)"
  "executed example_world = []"
  "console example_world = []"
  "\<forall>x. console_error example_world x = None"
  by (simp_all add: example_world_def example_engine_def)

text \<open>
  C1, as the code has it. A run that ends normally has executed four statements, the
  ones of questions 3, 4, 5 and 6 in this order, against a reachable server that holds
  both tables, has left the database as it was, and has printed each statement followed
  by the table it returned. The script defines no fifth statement.
\<close>

theorem queries_main_four_statements:
  assumes "queries_main w = Exit0 w'"
  shows "executed w' = executed w @ [Q3, Q4, Q5, Q6]
         \<and> db w' = db w
         \<and> reachable (db w)
         \<and> (\<exists>g z. tables (db w) ''green_taxi_data'' = Some (Trips g)
               \<and> tables (db w) ''zones'' = Some (Zones z)
               \<and> filter shows_statement_or_result (console w') =
                   filter shows_statement_or_result (console w) @
                     [HSql Q3, HResult (CountRows (q3 g)),
                      HSql Q4, HResult (DayRows (q4 g)),
                      HSql Q5, HResult (ZoneRows (q5 g z)),
                      HSql Q6, HResult (ZoneRows (q6 g z))])"
proof -
  from assms obtain w1 where
    s1: "run_query 3 ''Counting short trips (distance <= 1 mile)'' Q3 w = Exit0 w1"
    and rest1: "and_then (run_query 4 ''Day with longest trip distance'' Q4 w1) (\<lambda>w2.
        and_then (run_query 5 ''Pickup zone with largest total_amount on Nov 18'' Q5 w2) (\<lambda>w3.
        run_query 6 ''Dropoff zone with largest tip from East Harlem North'' Q6 w3)) = Exit0 w'"
    unfolding queries_main_def by (blast dest: and_then_Exit0D)
  from rest1 obtain w2 where
    s2: "run_query 4 ''Day with longest trip distance'' Q4 w1 = Exit0 w2"
    and rest2: "and_then (run_query 5 ''Pickup zone with largest total_amount on Nov 18'' Q5 w2) (\<lambda>w3.
        run_query 6 ''Dropoff zone with largest tip from East Harlem North'' Q6 w3) = Exit0 w'"
    by (blast dest: and_then_Exit0D)
  from rest2 obtain w3 where
    s3: "run_query 5 ''Pickup zone with largest total_amount on Nov 18'' Q5 w2 = Exit0 w3"
    and s4: "run_query 6 ''Dropoff zone with largest tip from East Harlem North'' Q6 w3 = Exit0 w'"
    by (blast dest: and_then_Exit0D)
  from run_query_Exit0D [OF s1] obtain r3 where r3: "read_sql Q3 (db w) = Inr r3"
    "db w1 = db w" "executed w1 = executed w @ [Q3]"
    "filter shows_statement_or_result (console w1) =
       filter shows_statement_or_result (console w) @ [HSql Q3, HResult r3]"
    by blast
  from run_query_Exit0D [OF s2] obtain r4 where r4: "read_sql Q4 (db w1) = Inr r4"
    "db w2 = db w1" "executed w2 = executed w1 @ [Q4]"
    "filter shows_statement_or_result (console w2) =
       filter shows_statement_or_result (console w1) @ [HSql Q4, HResult r4]"
    by blast
  from run_query_Exit0D [OF s3] obtain r5 where r5: "read_sql Q5 (db w2) = Inr r5"
    "db w3 = db w2" "executed w3 = executed w2 @ [Q5]"
    "filter shows_statement_or_result (console w3) =
       filter shows_statement_or_result (console w2) @ [HSql Q5, HResult r5]"
    by blast
  from run_query_Exit0D [OF s4] obtain r6 where r6: "read_sql Q6 (db w3) = Inr r6"
    "db w' = db w3" "executed w' = executed w3 @ [Q6]"
    "filter shows_statement_or_result (console w') =
       filter shows_statement_or_result (console w3) @ [HSql Q6, HResult r6]"
    by blast
  have dbs: "db w1 = db w" "db w2 = db w" "db w3 = db w" "db w' = db w"
    by (simp_all only: r3(2) r4(2) r5(2) r6(2))
  from r3(1) have reach: "reachable (db w)"
    by (rule read_sql_Inr_reachable)
  from r3(1) obtain g where g: "tables (db w) ''green_taxi_data'' = Some (Trips g)"
    by (blast dest: read_sql_Inr_trips)
  from r5(1) obtain z where z: "tables (db w) ''zones'' = Some (Zones z)"
    unfolding dbs by (blast dest: read_sql_Q5_zones)
  note rs = read_sql_present [OF reach g z]
  from r3(1) rs(1) have e3: "r3 = CountRows (q3 g)"
    by simp
  from r4(1) rs(2) have e4: "r4 = DayRows (q4 g)"
    unfolding dbs by simp
  from r5(1) rs(3) have e5: "r5 = ZoneRows (q5 g z)"
    unfolding dbs by simp
  from r6(1) rs(4) have e6: "r6 = ZoneRows (q6 g z)"
    unfolding dbs by simp
  have ex: "executed w' = executed w @ [Q3, Q4, Q5, Q6]"
    by (simp add: r3(3) r4(3) r5(3) r6(3))
  have shown: "filter shows_statement_or_result (console w') =
      filter shows_statement_or_result (console w) @
        [HSql Q3, HResult (CountRows (q3 g)), HSql Q4, HResult (DayRows (q4 g)),
         HSql Q5, HResult (ZoneRows (q5 g z)), HSql Q6, HResult (ZoneRows (q6 g z))]"
    by (simp add: r3(4) r4(4) r5(4) r6(4) e3 e4 e5 e6)
  from ex dbs(4) reach g z shown show ?thesis
    by blast
qed


theorem queries_main_four_statements_witness:
  "queries_main example_world = Exit0 (final_world (queries_main example_world))
   \<and> executed (final_world (queries_main example_world)) = [Q3, Q4, Q5, Q6]
   \<and> filter shows_statement_or_result (console (final_world (queries_main example_world))) =
       [HSql Q3, HResult (CountRows [1]),
        HSql Q4, HResult (DayRows [(Some (2025, 11, 19), Some 12)]),
        HSql Q5, HResult (ZoneRows [(Some ''East Harlem North'', Some (35 / 2))]),
        HSql Q6, HResult (ZoneRows [(None, None), (Some ''East Harlem South'', Some 2)])]"
proof -
  have q3: "q3 [trip1, trip2, trip3, trip4] = [1]"
    by code_simp
  have q4: "q4 [trip1, trip2, trip3, trip4] = [(Some (2025, 11, 19), Some 12)]"
    by code_simp
  have q5: "q5 [trip1, trip2, trip3, trip4] example_zones = [(Some ''East Harlem North'', Some (35 / 2))]"
    by code_simp
  have q6: "q6 [trip1, trip2, trip3, trip4] example_zones =
      [(None, None), (Some ''East Harlem South'', Some 2)]"
    by code_simp
  from queries_main_success [OF example_world_db(1,2,3,6)]
  obtain w' where run: "queries_main example_world = Exit0 w'"
    by blast
  from queries_main_four_statements [OF run]
  obtain g z where ex: "executed w' = executed example_world @ [Q3, Q4, Q5, Q6]"
    and g: "tables (db example_world) ''green_taxi_data'' = Some (Trips g)"
    and z: "tables (db example_world) ''zones'' = Some (Zones z)"
    and shown: "filter shows_statement_or_result (console w') =
        filter shows_statement_or_result (console example_world) @
          [HSql Q3, HResult (CountRows (q3 g)), HSql Q4, HResult (DayRows (q4 g)),
           HSql Q5, HResult (ZoneRows (q5 g z)), HSql Q6, HResult (ZoneRows (q6 g z))]"
    by blast
  from g have g': "g = [trip1, trip2, trip3, trip4]"
    by (simp add: example_world_db(2))
  from z have z': "z = example_zones"
    by (simp add: example_world_db(3))
  from run ex shown show ?thesis
    by (simp add: g' z' q3 q4 q5 q6 example_world_db(4,5))
qed

text \<open>
  C1 as stated, five statements on a successful run, fails on the example database: the
  run succeeds and has executed four statements.
\<close>

theorem queries_main_five_statements_counterexample:
  "(\<exists>w'. queries_main example_world = Exit0 w' \<and> executed w' = [Q3, Q4, Q5, Q6])
   \<and> length (executed (final_world (queries_main example_world))) \<noteq> 5"
proof -
  from queries_main_success [OF example_world_db(1,2,3,6)]
  obtain w' where "queries_main example_world = Exit0 w'" "executed w' = [Q3, Q4, Q5, Q6]"
    unfolding example_world_db(4) by auto
  then show ?thesis
    by auto
qed


end
